theory Spec2Isabelle
  imports Complex_Main "HOL-Library.Char_ord" "HOL-Library.List_Lexorder"
begin

section \<open>Python values used by the plotting module\<close>

text \<open>
  The exceptions that the modelled parts of \<^verbatim>\<open>singlet/dataset/plot.py\<close> can raise,
  either by an explicit \<^verbatim>\<open>raise\<close> or inside a numpy or list operation.
\<close>

datatype py_error =
    ValueError
  | IndexError
  | KeyError
  | TypeError
  | UnboundLocalError

text \<open>
  A numpy \<^verbatim>\<open>float64\<close> is modelled by an exact real number or one of the three special
  values of IEEE 754. Rounding, overflow and the sign of zero are not modelled; the
  special values follow the IEEE rules that numpy applies (a division by zero gives an
  infinity or NaN and a warning, never an exception).
\<close>

datatype npfloat = NInf | Fin real | PInf | NaN

fun isnan :: "npfloat \<Rightarrow> bool" where
  "isnan NaN = True"
| "isnan _ = False"

fun nf_rank :: "npfloat \<Rightarrow> nat" where
  "nf_rank NInf = 0"
| "nf_rank (Fin _) = 1"
| "nf_rank PInf = 2"
| "nf_rank NaN = 3"

text \<open>
  The order of \<^verbatim>\<open>np.sort\<close> and \<^verbatim>\<open>np.unique\<close>: the numeric order, with NaN after
  everything else. The comparisons of the language itself (\<^verbatim>\<open>==\<close>, \<^verbatim>\<open><=\<close>) are
  \<open>nf_eq\<close> and \<open>nf_le\<close> below: they are false whenever an operand is NaN.
\<close>

instantiation npfloat :: linorder
begin

definition less_eq_npfloat :: "npfloat \<Rightarrow> npfloat \<Rightarrow> bool" where
  "less_eq_npfloat a b =
     (case (a, b) of (Fin x, Fin y) \<Rightarrow> x \<le> y | _ \<Rightarrow> nf_rank a \<le> nf_rank b)"

definition less_npfloat :: "npfloat \<Rightarrow> npfloat \<Rightarrow> bool" where
  "less_npfloat a b = (a \<le> b \<and> \<not> b \<le> (a::npfloat))"

instance
proof
  fix x y z :: npfloat
  show "(x < y) = (x \<le> y \<and> \<not> y \<le> x)"
    by (simp add: less_npfloat_def)
  show "x \<le> x"
    by (cases x) (simp_all add: less_eq_npfloat_def)
  show "x \<le> y \<Longrightarrow> y \<le> z \<Longrightarrow> x \<le> z"
    by (cases x; cases y; cases z) (simp_all add: less_eq_npfloat_def)
  show "x \<le> y \<Longrightarrow> y \<le> x \<Longrightarrow> x = y"
    by (cases x; cases y) (simp_all add: less_eq_npfloat_def)
  show "x \<le> y \<or> y \<le> x"
    by (cases x; cases y) (auto simp: less_eq_npfloat_def)
qed

end

definition nf_eq :: "npfloat \<Rightarrow> npfloat \<Rightarrow> bool" where
  "nf_eq a b = (\<not> isnan a \<and> \<not> isnan b \<and> a = b)"

definition nf_le :: "npfloat \<Rightarrow> npfloat \<Rightarrow> bool" where
  "nf_le a b = (\<not> isnan a \<and> \<not> isnan b \<and> a \<le> b)"

fun nf_neg :: "npfloat \<Rightarrow> npfloat" where
  "nf_neg (Fin x) = Fin (- x)"
| "nf_neg PInf = NInf"
| "nf_neg NInf = PInf"
| "nf_neg NaN = NaN"

fun nf_add :: "npfloat \<Rightarrow> npfloat \<Rightarrow> npfloat" where
  "nf_add (Fin x) (Fin y) = Fin (x + y)"
| "nf_add NaN _ = NaN"
| "nf_add _ NaN = NaN"
| "nf_add PInf NInf = NaN"
| "nf_add NInf PInf = NaN"
| "nf_add PInf _ = PInf"
| "nf_add _ PInf = PInf"
| "nf_add NInf _ = NInf"
| "nf_add _ NInf = NInf"

definition nf_sub :: "npfloat \<Rightarrow> npfloat \<Rightarrow> npfloat" where
  "nf_sub a b = nf_add a (nf_neg b)"

definition nf_signed_inf :: "bool \<Rightarrow> npfloat" where
  "nf_signed_inf positive = (if positive then PInf else NInf)"

fun nf_mul :: "npfloat \<Rightarrow> npfloat \<Rightarrow> npfloat" where
  "nf_mul (Fin x) (Fin y) = Fin (x * y)"
| "nf_mul NaN _ = NaN"
| "nf_mul _ NaN = NaN"
| "nf_mul (Fin x) b = (if x = 0 then NaN else nf_signed_inf ((0 < x) = (b = PInf)))"
| "nf_mul a (Fin y) = (if y = 0 then NaN else nf_signed_inf ((0 < y) = (a = PInf)))"
| "nf_mul a b = nf_signed_inf (a = b)"

fun nf_div :: "npfloat \<Rightarrow> npfloat \<Rightarrow> npfloat" where
  "nf_div (Fin x) (Fin y) =
     (if y \<noteq> 0 then Fin (x / y)
      else if x = 0 then NaN
      else nf_signed_inf (0 < x))"
| "nf_div NaN _ = NaN"
| "nf_div _ NaN = NaN"
| "nf_div (Fin x) _ = Fin 0"
| "nf_div a (Fin y) = nf_signed_inf ((0 \<le> y) = (a = PInf))"
| "nf_div _ _ = NaN"

text \<open>\<^verbatim>\<open>np.log10\<close>: minus infinity at zero, NaN below zero.\<close>

fun nf_log10 :: "npfloat \<Rightarrow> npfloat" where
  "nf_log10 (Fin x) = (if 0 < x then Fin (log 10 x) else if x = 0 then NInf else NaN)"
| "nf_log10 PInf = PInf"
| "nf_log10 NInf = NaN"
| "nf_log10 NaN = NaN"

text \<open>
  \<^verbatim>\<open>a.min()\<close> and \<^verbatim>\<open>a.max()\<close> of a numpy array: a \<^verbatim>\<open>ValueError\<close> on an empty array,
  NaN as soon as one entry is NaN.
\<close>

definition amin :: "npfloat list \<Rightarrow> py_error + npfloat" where
  "amin xs =
     (case xs of
        [] \<Rightarrow> Inl ValueError
      | x # ys \<Rightarrow> Inr (if list_ex isnan xs then NaN else fold min ys x))"

definition amax :: "npfloat list \<Rightarrow> py_error + npfloat" where
  "amax xs =
     (case xs of
        [] \<Rightarrow> Inl ValueError
      | x # ys \<Rightarrow> Inr (if list_ex isnan xs then NaN else fold max ys x))"

text \<open>
  A Python \<^verbatim>\<open>dict\<close> is an insertion-ordered association list. Assigning to an existing
  key keeps its position, assigning to a new key appends, \<^verbatim>\<open>pop\<close> removes the key.
\<close>

type_synonym ('k, 'v) pydict = "('k \<times> 'v) list"

fun dict_set :: "'k \<Rightarrow> 'v \<Rightarrow> ('k, 'v) pydict \<Rightarrow> ('k, 'v) pydict" where
  "dict_set k v [] = [(k, v)]"
| "dict_set k v (p # ps) = (if fst p = k then (k, v) # ps else p # dict_set k v ps)"

definition dict_del :: "'k \<Rightarrow> ('k, 'v) pydict \<Rightarrow> ('k, 'v) pydict" where
  "dict_del k ps = filter (\<lambda>p. fst p \<noteq> k) ps"

definition dict_get :: "('k, 'v) pydict \<Rightarrow> 'k \<Rightarrow> 'v option" where
  "dict_get d k = map_of d k"

definition dict_has :: "('k, 'v) pydict \<Rightarrow> 'k \<Rightarrow> bool" where
  "dict_has d k = (dict_get d k \<noteq> None)"

text \<open>\<^verbatim>\<open>d.update(e)\<close>: every item of \<^verbatim>\<open>e\<close>, in order, is assigned into \<^verbatim>\<open>d\<close>.\<close>

definition dict_update :: "('k, 'v) pydict \<Rightarrow> ('k, 'v) pydict \<Rightarrow> ('k, 'v) pydict" where
  "dict_update d e = fold (\<lambda>p acc. dict_set (fst p) (snd p) acc) e d"

section \<open>Plot properties: \<^verbatim>\<open>_sanitize_plot_properties\<close> and \<^verbatim>\<open>_update_properties\<close>\<close>

text \<open>The alias table of \<^verbatim>\<open>_sanitize_plot_properties\<close>: long name, short alias.\<close>

definition aliases :: "(string \<times> string) list" where
  "aliases =
    [(''linewidth'', ''lw''),
     (''antialiased'', ''aa''),
     (''color'', ''c''),
     (''linestyle'', ''ls''),
     (''markeredgecolor'', ''mec''),
     (''markeredgewidth'', ''mew''),
     (''markerfacecolor'', ''mfc''),
     (''markerfacecoloralt'', ''mfcalt''),
     (''markersize'', ''ms'')]"

text \<open>
  One turn of the loop \<^verbatim>\<open>for key, alias in aliases.items()\<close>:
  \<^verbatim>\<open>if alias in kwargs: kwargs[key] = kwargs.pop(alias)\<close>.
\<close>

definition sanitize_step :: "string \<times> string \<Rightarrow> (string, 'v) pydict \<Rightarrow> (string, 'v) pydict" where
  "sanitize_step ka kwargs =
     (case dict_get kwargs (snd ka) of
        None \<Rightarrow> kwargs
      | Some v \<Rightarrow> dict_set (fst ka) v (dict_del (snd ka) kwargs))"

definition sanitize_plot_properties :: "(string, 'v) pydict \<Rightarrow> (string, 'v) pydict" where
  "sanitize_plot_properties kwargs = fold sanitize_step aliases kwargs"

text \<open>
  One turn of the loop \<^verbatim>\<open>for key, val in defaults.items()\<close>:
  \<^verbatim>\<open>if key not in kwargs: kwargs[key] = val\<close>.
\<close>

definition default_step :: "string \<times> 'v \<Rightarrow> (string, 'v) pydict \<Rightarrow> (string, 'v) pydict" where
  "default_step kv kwargs = (if dict_has kwargs (fst kv) then kwargs else dict_set (fst kv) (snd kv) kwargs)"

text \<open>
  \<^verbatim>\<open>_update_properties(kwargs, defaults)\<close> mutates both dictionaries; the model returns
  the new \<^verbatim>\<open>kwargs\<close> and the new \<^verbatim>\<open>defaults\<close>.
\<close>

definition update_properties ::
  "(string, 'v) pydict \<Rightarrow> (string, 'v) pydict \<Rightarrow> (string, 'v) pydict \<times> (string, 'v) pydict" where
  "update_properties kwargs defaults =
     (let kwargs1 = sanitize_plot_properties kwargs;
          defaults1 = sanitize_plot_properties defaults
      in (fold default_step defaults1 kwargs1, defaults1))"

section \<open>Dot plot: size of a dot\<close>

text \<open>
  The closure \<^verbatim>\<open>size_fun\<close> of \<^verbatim>\<open>dot_plot\<close>, with the captured \<^verbatim>\<open>min_size\<close> as its first
  argument: \<^verbatim>\<open>return min_size + (fraction * 11)**2\<close>. Numbers are exact reals here.
\<close>

definition size_fun :: "real \<Rightarrow> real \<Rightarrow> real" where
  "size_fun min_size fraction = min_size + (fraction * 11) ^ 2"

section \<open>Coloring of \<^verbatim>\<open>scatter_reduced\<close>\<close>

text \<open>
  Colors are values of an arbitrary type \<open>'c\<close> (names or RGBA tuples). A value of a
  keyword argument is a number, a string, one color, or a numpy array of colors or numbers.
\<close>

datatype 'c pyval =
    PNum real
  | PStr string
  | PColor 'c
  | PColors "'c list"
  | PNums "real list"

text \<open>
  The argument \<^verbatim>\<open>cmap\<close> after \<^verbatim>\<open>if isinstance(cmap, str): cmap = cm.get_cmap(cmap)\<close>:
  a callable colormap, a dict from label to color, or a sequence of colors.
\<close>

datatype ('a, 'c) cmap_arg =
    Colormap "npfloat \<Rightarrow> 'c"
  | Mapping "('a, 'c) pydict"
  | Listed "'c list"

text \<open>
  A column of the metadata sheet: one with the \<^verbatim>\<open>cat\<close> accessor or a non-numeric dtype
  (labels of type \<open>'a\<close>), or one with a numeric dtype. The labels of a column are present
  values of one linearly ordered type (strings, or numbers). A column with a missing label
  is outside the model: on it \<^verbatim>\<open>np.unique\<close> compares a label with NaN and raises
  \<^verbatim>\<open>TypeError\<close> before any color is assigned.
\<close>

datatype 'a column =
    Categorical "'a list"
  | Numeric "npfloat list"

text \<open>
  The axes handle: the attribute \<^verbatim>\<open>_singlet_cmap\<close> (\<open>None\<close> when the attribute does not
  exist) and the scatter calls made on the axes so far, each with the positions of the
  rows it draws and its keyword arguments.
\<close>

record ('a, 'c) axes =
  singlet_cmap :: "('a, 'c) pydict option"
  scatter_calls :: "(nat list \<times> (string, 'c pyval) pydict) list"

text \<open>\<^verbatim>\<open>list(np.unique(values))\<close>: the distinct values in ascending order.\<close>

definition np_unique :: "'a::linorder list \<Rightarrow> 'a list" where
  "np_unique xs = sort (remdups xs)"

text \<open>\<^verbatim>\<open>np.linspace(0, 1, n)\<close>.\<close>

definition linspace01 :: "nat \<Rightarrow> npfloat list" where
  "linspace01 n =
     (if n = 1 then [Fin 0]
      else map (\<lambda>i. Fin (real i / real (n - 1))) [0..<n])"

text \<open>\<^verbatim>\<open>xs.index(x)\<close> of a Python list; \<open>None\<close> stands for its \<^verbatim>\<open>ValueError\<close>.\<close>

fun list_index :: "'a list \<Rightarrow> 'a \<Rightarrow> nat option" where
  "list_index [] x = None"
| "list_index (y # ys) x = (if y = x then Some 0 else map_option Suc (list_index ys x))"

fun row_indices :: "'a list \<Rightarrow> 'a list \<Rightarrow> py_error + nat list" where
  "row_indices u [] = Inr []"
| "row_indices u (x # xs) =
     (case list_index u x of
        None \<Rightarrow> Inl ValueError
      | Some i \<Rightarrow> (case row_indices u xs of Inl e \<Rightarrow> Inl e | Inr js \<Rightarrow> Inr (i # js)))"

text \<open>\<^verbatim>\<open>a[idx]\<close> for a numpy array and a list of positions: out of range is an error.\<close>

definition fancy_index :: "'c list \<Rightarrow> nat list \<Rightarrow> py_error + 'c list" where
  "fancy_index a idx =
     (if list_all (\<lambda>i. i < length a) idx then Inr (map (\<lambda>i. a ! i) idx) else Inl IndexError)"

text \<open>\<^verbatim>\<open>a[mask]\<close> for a numpy array and a boolean array.\<close>

definition mask_select :: "'x list \<Rightarrow> bool list \<Rightarrow> py_error + 'x list" where
  "mask_select a ind =
     (if length a = length ind then Inr (map fst (filter snd (zip a ind))) else Inl IndexError)"

text \<open>\<^verbatim>\<open>dict(pairs)\<close>.\<close>

definition dict_of :: "('k \<times> 'v) list \<Rightarrow> ('k, 'v) pydict" where
  "dict_of ps = dict_update [] ps"

text \<open>
  The colors \<^verbatim>\<open>c_unique\<close> of the distinct labels (lines 497 to 502). \<^verbatim>\<open>np.asarray\<close> keeps a
  list of colors as it is; a list that mixes color names with RGB tuples, which newer
  versions of numpy refuse, is outside the model.
\<close>

definition c_unique_of :: "('a, 'c) cmap_arg \<Rightarrow> 'c \<Rightarrow> 'a list \<Rightarrow> 'c list" where
  "c_unique_of cmap default_color cd_unique =
     (case cmap of
        Colormap f \<Rightarrow> map f (linspace01 (length cd_unique))
      | Mapping m \<Rightarrow> map (\<lambda>x. case dict_get m x of None \<Rightarrow> default_color | Some v \<Rightarrow> v) cd_unique
      | Listed l \<Rightarrow> l)"

text \<open>
  The categorical branch of \<^verbatim>\<open>scatter_reduced\<close> (lines 495 to 510): the colors of the
  rows and the axes with the legend mapping merged into \<^verbatim>\<open>_singlet_cmap\<close>.
\<close>

definition scatter_reduced_categorical ::
  "'a::linorder list \<Rightarrow> ('a, 'c) cmap_arg \<Rightarrow> 'c \<Rightarrow> ('a, 'c) axes \<Rightarrow> py_error + ('c list \<times> ('a, 'c) axes)" where
  "scatter_reduced_categorical values cmap default_color ax =
     (let cd_unique = np_unique values;
          c_unique = c_unique_of cmap default_color cd_unique
      in case row_indices cd_unique values of
           Inl e \<Rightarrow> Inl e
         | Inr idx \<Rightarrow>
             (case fancy_index c_unique idx of
                Inl e \<Rightarrow> Inl e
              | Inr c \<Rightarrow>
                  Inr (c, ax\<lparr>singlet_cmap :=
                               Some (dict_update
                                       (case singlet_cmap ax of None \<Rightarrow> [] | Some m \<Rightarrow> m)
                                       (dict_of (zip cd_unique c_unique)))\<rparr>)))"

text \<open>
  Modelled from the spec: \<^verbatim>\<open>pandas.qcut\<close> is a library function outside the repository.
  The spec's \<^verbatim>\<open>bucket_tiers\<close> bins by equal-population edges computed with the standard
  quantile rule (linear interpolation between the order statistics of the non-missing
  values), collapses duplicate edges, puts a value on a boundary into the lower bucket and
  includes the lowest value in the first bucket. A row with a missing value, or outside
  every bucket, has the tier NaN.
\<close>

definition quantile :: "npfloat list \<Rightarrow> real \<Rightarrow> npfloat" where
  "quantile sorted_vals q =
     (if sorted_vals = [] then NaN
      else let pos = q * real (length sorted_vals - 1);
               lo = nat \<lfloor>pos\<rfloor>;
               frac = pos - real lo
           in if frac = 0 then sorted_vals ! lo
              else nf_add (sorted_vals ! lo)
                     (nf_mul (nf_sub (sorted_vals ! (lo + 1)) (sorted_vals ! lo)) (Fin frac)))"

text \<open>The distinct elements in the order of their first occurrence.\<close>

definition unique_first :: "'x list \<Rightarrow> 'x list" where
  "unique_first xs = rev (remdups (rev xs))"

text \<open>\<^verbatim>\<open>bins.searchsorted(x, side='left')\<close> for ascending bins.\<close>

definition searchsorted_left :: "npfloat list \<Rightarrow> npfloat \<Rightarrow> nat" where
  "searchsorted_left bins x = length (filter (\<lambda>b. b < x) bins)"

definition qcut_bins :: "npfloat list \<Rightarrow> real list \<Rightarrow> npfloat list" where
  "qcut_bins x qs = unique_first (map (quantile (sort (filter (\<lambda>v. \<not> isnan v) x))) qs)"

definition qcut_label :: "npfloat list \<Rightarrow> npfloat \<Rightarrow> npfloat" where
  "qcut_label bins v =
     (let ids = (if bins \<noteq> [] \<and> nf_eq v (hd bins) then 1 else searchsorted_left bins v)
      in if isnan v \<or> ids = length bins \<or> ids = 0 then NaN else Fin (real (ids - 1)))"

definition qcut :: "npfloat list \<Rightarrow> real list \<Rightarrow> npfloat list" where
  "qcut x qs = map (qcut_label (qcut_bins x qs)) x"

text \<open>\<^verbatim>\<open>np.linspace(0, 1, 5)\<close>, the quantiles that \<^verbatim>\<open>scatter_reduced\<close> asks for.\<close>

definition tier_quantiles :: "real list" where
  "tier_quantiles = [0, 1 / 4, 1 / 2, 3 / 4, 1]"

text \<open>
  The result of the numeric branch of \<^verbatim>\<open>scatter_reduced\<close> (lines 513 to 547): the colors
  \<^verbatim>\<open>c\<close>, the bounds \<^verbatim>\<open>cd_min\<close> and \<^verbatim>\<open>cd_max\<close>, the normalized values \<^verbatim>\<open>cd_norm\<close>, and the
  tiers when \<^verbatim>\<open>high_on_top\<close> is set (\<open>None\<close> when the tiers stay \<^verbatim>\<open>np.ones\<close>).
\<close>

record 'c continuous =
  cont_c :: "'c list"
  cont_min :: npfloat
  cont_max :: npfloat
  cont_norm :: "npfloat list"
  cont_tiers :: "npfloat list option"

text \<open>
  \<open>to_rgba\<close> stands for \<^verbatim>\<open>mpl.colors.to_rgba(color, alpha=...)\<close> and \<open>pseudocount\<close> for
  \<^verbatim>\<open>self.dataset.counts.pseudocount\<close>. A \<^verbatim>\<open>cmap\<close> that is not callable cannot be applied
  to the normalized values.
\<close>

definition scatter_reduced_continuous ::
  "npfloat list \<Rightarrow> bool option \<Rightarrow> bool \<Rightarrow> npfloat \<Rightarrow> ('a, 'c) cmap_arg \<Rightarrow> 'c \<Rightarrow>
   ('c \<Rightarrow> real \<Rightarrow> 'c) \<Rightarrow> bool \<Rightarrow> py_error + 'c continuous" where
  "scatter_reduced_continuous values color_log color_by_phenotype pseudocount cmap default_color
     to_rgba high_on_top =
     (let unmask = map (\<lambda>v. \<not> isnan v) values;
          present = filter (\<lambda>v. \<not> isnan v) values
      in case amin present of
           Inl e \<Rightarrow> Inl e
         | Inr cd_min0 \<Rightarrow>
        (case amax present of
           Inl e \<Rightarrow> Inl e
         | Inr cd_max0 \<Rightarrow>
        (let use_log = (case color_log of None \<Rightarrow> \<not> color_by_phenotype | Some b \<Rightarrow> b);
             pc = (if color_by_phenotype then nf_mul (Fin (1 / 10)) cd_min0 else pseudocount);
             color_data = (if use_log then map (\<lambda>v. nf_log10 (nf_add v pc)) values else values);
             cd_min = (if use_log then nf_log10 (nf_add cd_min0 pc) else cd_min0);
             cd_max = (if use_log then nf_log10 (nf_add cd_max0 pc) else cd_max0);
             cd_norm = map (\<lambda>v. nf_div (nf_sub v cd_min) (nf_sub cd_max cd_min)) color_data;
             tiers = (if high_on_top then Some (qcut cd_norm tier_quantiles) else None)
         in case cmap of
              Colormap f \<Rightarrow>
                Inr \<lparr>cont_c = map (\<lambda>(m, v). if m then f v else to_rgba default_color (3 / 10))
                                 (zip unmask cd_norm),
                     cont_min = cd_min, cont_max = cd_max, cont_norm = cd_norm,
                     cont_tiers = tiers\<rparr>
            | _ \<Rightarrow> Inl TypeError)))"

text \<open>
  The drawing loop of \<^verbatim>\<open>scatter_reduced\<close> (lines 551 to 566). A single color counts as a
  \<^verbatim>\<open>str\<close> (a color name) and as a scalar.
\<close>

definition subset_c :: "'c pyval \<Rightarrow> bool list \<Rightarrow> nat \<Rightarrow> py_error + 'c pyval" where
  "subset_c v ind len_vec =
     (case v of
        PStr _ \<Rightarrow> Inr v
      | PColor _ \<Rightarrow> Inr v
      | PNum _ \<Rightarrow> Inl TypeError
      | PColors cs \<Rightarrow>
          (if length cs = len_vec
           then (case mask_select cs ind of Inl e \<Rightarrow> Inl e | Inr cs' \<Rightarrow> Inr (PColors cs'))
           else Inr v)
      | PNums xs \<Rightarrow>
          (if length xs = len_vec
           then (case mask_select xs ind of Inl e \<Rightarrow> Inl e | Inr xs' \<Rightarrow> Inr (PNums xs'))
           else Inr v))"

definition subset_s :: "'c pyval \<Rightarrow> bool list \<Rightarrow> py_error + 'c pyval" where
  "subset_s v ind =
     (case v of
        PColors cs \<Rightarrow> (case mask_select cs ind of Inl e \<Rightarrow> Inl e | Inr cs' \<Rightarrow> Inr (PColors cs'))
      | PNums xs \<Rightarrow> (case mask_select xs ind of Inl e \<Rightarrow> Inl e | Inr xs' \<Rightarrow> Inr (PNums xs'))
      | _ \<Rightarrow> Inr v)"

text \<open>
  One turn of \<^verbatim>\<open>for t in tiers_unique\<close>, for a plot of \<open>n\<close> rows: the rows whose tier
  equals \<open>t\<close> are drawn with one scatter call.
\<close>

definition draw_tier ::
  "nat \<Rightarrow> (string, 'c pyval) pydict \<Rightarrow> npfloat list \<Rightarrow> npfloat \<Rightarrow> ('a, 'c) axes \<Rightarrow>
   py_error + ('a, 'c) axes" where
  "draw_tier n kwargs tiers t ax =
     (let ind = map (\<lambda>x. nf_eq x t) tiers
      in if length ind \<noteq> n then Inl IndexError
         else
           (let vec = filter (\<lambda>i. ind ! i) [0..<n]
            in case (case dict_get kwargs ''c'' of
                       None \<Rightarrow> Inr kwargs
                     | Some v \<Rightarrow>
                         (case subset_c v ind (length vec) of
                            Inl e \<Rightarrow> Inl e
                          | Inr v' \<Rightarrow> Inr (dict_set ''c'' v' kwargs))) of
                 Inl e \<Rightarrow> Inl e
               | Inr kw \<Rightarrow>
                   (case dict_get kw ''s'' of
                      None \<Rightarrow> Inl KeyError
                    | Some sv \<Rightarrow>
                        (case subset_s sv ind of
                           Inl e \<Rightarrow> Inl e
                         | Inr sv' \<Rightarrow>
                             Inr (ax\<lparr>scatter_calls :=
                                        scatter_calls ax @ [(vec, dict_set ''s'' sv' kw)]\<rparr>)))))"

fun draw_loop ::
  "nat \<Rightarrow> (string, 'c pyval) pydict \<Rightarrow> npfloat list \<Rightarrow> npfloat list \<Rightarrow> ('a, 'c) axes \<Rightarrow>
   py_error + ('a, 'c) axes" where
  "draw_loop n kwargs tiers [] ax = Inr ax"
| "draw_loop n kwargs tiers (t # ts) ax =
     (case draw_tier n kwargs tiers t ax of
        Inl e \<Rightarrow> Inl e
      | Inr ax' \<Rightarrow> draw_loop n kwargs tiers ts ax')"

text \<open>\<^verbatim>\<open>tiers_unique = np.sort(np.unique(tiers))\<close> and the loop over it.\<close>

definition draw_tiers ::
  "nat \<Rightarrow> (string, 'c pyval) pydict \<Rightarrow> npfloat list \<Rightarrow> ('a, 'c) axes \<Rightarrow> py_error + ('a, 'c) axes" where
  "draw_tiers n kwargs tiers ax = draw_loop n kwargs tiers (sort (np_unique tiers)) ax"

text \<open>
  \<^verbatim>\<open>scatter_reduced\<close> from line 465 on, for \<open>n\<close> rows of coordinates. The choice between the
  sample sheet and the feature sheet (lines 444 to 463) is made by the caller of the
  model: \<open>metadata\<close> is the chosen sheet, by column name, and \<open>data\<close> the chosen counts, by
  row name. The axes are given (a new figure has no \<^verbatim>\<open>_singlet_cmap\<close> and no calls).
\<close>

definition scatter_reduced ::
  "nat \<Rightarrow> (string, 'a::linorder column) pydict \<Rightarrow> (string, npfloat list) pydict \<Rightarrow> npfloat \<Rightarrow>
   ('c \<Rightarrow> real \<Rightarrow> 'c) \<Rightarrow> string option \<Rightarrow> bool option \<Rightarrow> ('a, 'c) cmap_arg \<Rightarrow> 'c \<Rightarrow>
   ('a, 'c) axes \<Rightarrow> bool \<Rightarrow> (string, 'c pyval) pydict \<Rightarrow> py_error + ('a, 'c) axes" where
  "scatter_reduced n metadata data pseudocount to_rgba color_by color_log cmap default_color ax
     high_on_top kwargs =
     (let kwargs1 = fst (update_properties kwargs [(''s'', PNum 90)]);
          tiers = replicate n (Fin 1);
          numeric = (\<lambda>values phenotype.
            case scatter_reduced_continuous values color_log phenotype pseudocount cmap
                   default_color to_rgba high_on_top of
              Inl e \<Rightarrow> Inl e
            | Inr r \<Rightarrow>
                draw_tiers n (dict_set ''c'' (PColors (cont_c r)) kwargs1)
                  (case cont_tiers r of None \<Rightarrow> tiers | Some ts \<Rightarrow> ts) ax)
      in case color_by of
           None \<Rightarrow> draw_tiers n (dict_set ''color'' (PColor default_color) kwargs1) tiers ax
         | Some key \<Rightarrow>
             (case dict_get metadata key of
                Some (Categorical values) \<Rightarrow>
                  (case scatter_reduced_categorical values cmap default_color ax of
                     Inl e \<Rightarrow> Inl e
                   | Inr (c, ax1) \<Rightarrow> draw_tiers n (dict_set ''c'' (PColors c) kwargs1) tiers ax1)
              | Some (Numeric values) \<Rightarrow> numeric values True
              | None \<Rightarrow>
                  (case dict_get data key of
                     Some values \<Rightarrow> numeric values False
                   | None \<Rightarrow> Inl ValueError)))"

section \<open>Dot plot: size and shade of the dots\<close>

text \<open>
  A row of the \<^verbatim>\<open>points\<close> table of \<^verbatim>\<open>dot_plot\<close>, indexed by \<^verbatim>\<open>(count, group)\<close>. The
  fraction is the mean of a boolean column, a number.
\<close>

record ('k, 'g) point =
  pt_count :: 'k
  pt_group :: 'g
  pt_fraction :: real
  pt_level :: npfloat
  pt_s :: real
  pt_c :: npfloat

text \<open>
  The arguments \<^verbatim>\<open>vmin\<close> and \<^verbatim>\<open>vmax\<close>: the string \<^verbatim>\<open>'min'\<close> or \<^verbatim>\<open>'max'\<close> (across the
  whole plot list), \<^verbatim>\<open>'min_single'\<close> or \<^verbatim>\<open>'max_single'\<close> (for each element), or anything
  else, which is used as the bound itself.
\<close>

datatype vbound = Across | Single | Given npfloat

definition level_bound ::
  "(npfloat list \<Rightarrow> py_error + npfloat) \<Rightarrow> vbound \<Rightarrow> ('k, 'g) point list \<Rightarrow> 'k \<Rightarrow> py_error + npfloat" where
  "level_bound extremum vb points count =
     (case vb of
        Across \<Rightarrow> extremum (map pt_level points)
      | Single \<Rightarrow> extremum (map pt_level (filter (\<lambda>p. pt_count p = count) points))
      | Given v \<Rightarrow> Inr v)"

text \<open>Lines 1203 to 1206 for the row \<open>p\<close> at \<^verbatim>\<open>(count, gr)\<close>.\<close>

definition encode_point :: "real \<Rightarrow> npfloat \<Rightarrow> npfloat \<Rightarrow> ('k, 'g) point \<Rightarrow> ('k, 'g) point" where
  "encode_point min_size vm vM p =
     p\<lparr>pt_s := size_fun min_size (pt_fraction p),
       pt_c := nf_div (nf_sub (pt_level p) vm) (nf_sub vM vm)\<rparr>"

text \<open>\<^verbatim>\<open>points.at[(count, gr), ...]\<close>: a \<^verbatim>\<open>KeyError\<close> when the table has no such row.\<close>

fun points_at_update ::
  "('k, 'g) point list \<Rightarrow> 'k \<Rightarrow> 'g \<Rightarrow> (('k, 'g) point \<Rightarrow> ('k, 'g) point) \<Rightarrow>
   py_error + ('k, 'g) point list" where
  "points_at_update [] count gr f = Inl KeyError"
| "points_at_update (p # ps) count gr f =
     (if pt_count p = count \<and> pt_group p = gr then Inr (f p # ps)
      else (case points_at_update ps count gr f of Inl e \<Rightarrow> Inl e | Inr ps' \<Rightarrow> Inr (p # ps')))"

fun encode_groups ::
  "real \<Rightarrow> npfloat \<Rightarrow> npfloat \<Rightarrow> 'g list \<Rightarrow> 'k \<Rightarrow> 'g list \<Rightarrow> ('k, 'g) point list \<Rightarrow>
   py_error + ('k, 'g) point list" where
  "encode_groups min_size vm vM gexist count [] points = Inr points"
| "encode_groups min_size vm vM gexist count (gr # grs) points =
     (if gr \<notin> set gexist then encode_groups min_size vm vM gexist count grs points
      else (case points_at_update points count gr (encode_point min_size vm vM) of
              Inl e \<Rightarrow> Inl e
            | Inr points' \<Rightarrow> encode_groups min_size vm vM gexist count grs points'))"

text \<open>The loop \<^verbatim>\<open>for count in plot_list\<close> of lines 1185 to 1206.\<close>

fun dot_plot_encode ::
  "real \<Rightarrow> vbound \<Rightarrow> vbound \<Rightarrow> 'g list \<Rightarrow> 'g list \<Rightarrow> 'k list \<Rightarrow> ('k, 'g) point list \<Rightarrow>
   py_error + ('k, 'g) point list" where
  "dot_plot_encode min_size vmin vmax gexist groups [] points = Inr points"
| "dot_plot_encode min_size vmin vmax gexist groups (count # plot_list) points =
     (case level_bound amin vmin points count of
        Inl e \<Rightarrow> Inl e
      | Inr vm \<Rightarrow>
     (case level_bound amax vmax points count of
        Inl e \<Rightarrow> Inl e
      | Inr vM \<Rightarrow>
     (case encode_groups min_size vm vM gexist count groups points of
        Inl e \<Rightarrow> Inl e
      | Inr points' \<Rightarrow> dot_plot_encode min_size vmin vmax gexist groups plot_list points')))"

section \<open>Clustermap: colors of an annotation\<close>

text \<open>
  A value of \<^verbatim>\<open>annotate_samples\<close> or \<^verbatim>\<open>annotate_features\<close>: a name (a \<^verbatim>\<open>str\<close>), a
  sequence of colors, or a callable colormap.
\<close>

datatype 'c annotation =
    Name string
  | Colors "'c list"
  | Cmap "npfloat \<Rightarrow> 'c"

text \<open>\<^verbatim>\<open>palette[i]\<close> for each position of a Python list.\<close>

definition list_items :: "'c list \<Rightarrow> nat list \<Rightarrow> py_error + 'c list" where
  "list_items palette idx =
     (if list_all (\<lambda>i. i < length palette) idx then Inr (map (\<lambda>i. palette ! i) idx)
      else Inl IndexError)"

text \<open>\<^verbatim>\<open>np.nanmin\<close> and \<^verbatim>\<open>np.nanmax\<close>: the NaN entries are left out; NaN when nothing is left.\<close>

definition nan_extremum :: "(npfloat list \<Rightarrow> py_error + npfloat) \<Rightarrow> npfloat list \<Rightarrow> py_error + npfloat" where
  "nan_extremum extremum xs =
     (if xs = [] then Inl ValueError
      else if filter (\<lambda>v. \<not> isnan v) xs = [] then Inr NaN
      else extremum (filter (\<lambda>v. \<not> isnan v) xs))"

text \<open>
  One turn of \<^verbatim>\<open>for key, val in annotate_samples.items()\<close> (lines 727 to 782; the loop over
  \<^verbatim>\<open>annotate_features\<close> has the same body). The local variable \<^verbatim>\<open>palette\<close> is \<open>None\<close>
  while it is unbound. \<open>color_palette\<close> stands for \<^verbatim>\<open>sns.color_palette\<close> and \<open>get_cmap\<close> for
  \<^verbatim>\<open>cm.get_cmap\<close>. The result is the colors \<^verbatim>\<open>c\<close> of the rows and the new \<^verbatim>\<open>palette\<close>.
\<close>

definition annotate_item ::
  "(string \<Rightarrow> nat \<Rightarrow> 'c list) \<Rightarrow> (string \<Rightarrow> npfloat \<Rightarrow> 'c) \<Rightarrow> 'c list option \<Rightarrow>
   'a::linorder column \<Rightarrow> 'c annotation \<Rightarrow> py_error + ('c list \<times> 'c list option)" where
  "annotate_item color_palette get_cmap palette color_data val =
     (let sequential = (\<lambda>values cmap.
            case nan_extremum amax values of
              Inl e \<Rightarrow> Inl e
            | Inr vmax \<Rightarrow>
           (case nan_extremum amin values of
              Inl e \<Rightarrow> Inl e
            | Inr vmin \<Rightarrow>
           (case cmap of
              None \<Rightarrow> Inl TypeError
            | Some f \<Rightarrow>
                Inr (map (\<lambda>v. f (nf_div (nf_sub v vmin) (nf_sub vmax vmin))) values, palette))));
          qualitative = (\<lambda>values new_palette.
            case row_indices (np_unique values) values of
              Inl e \<Rightarrow> Inl e
            | Inr idx \<Rightarrow>
                (case list_items new_palette idx of
                   Inl e \<Rightarrow> Inl e
                 | Inr c \<Rightarrow> Inr (c, Some new_palette)))
      in case val of
           Name name \<Rightarrow>
             (case color_data of
                Categorical values \<Rightarrow>
                  qualitative values (color_palette name (length (np_unique values)))
              | Numeric values \<Rightarrow> sequential values (Some (get_cmap name)))
         | _ \<Rightarrow>
             (case color_data of
                Categorical values \<Rightarrow>
                  (case palette of
                     None \<Rightarrow> Inl UnboundLocalError
                   | Some old_palette \<Rightarrow>
                       if length old_palette < length (np_unique values) then Inl ValueError
                       else (case val of
                               Colors l \<Rightarrow> qualitative values l
                             | _ \<Rightarrow> Inl TypeError))
              | Numeric values \<Rightarrow>
                  sequential values (case val of Cmap f \<Rightarrow> Some f | _ \<Rightarrow> None)))"

text \<open>The loop over the items, from the \<^verbatim>\<open>palette\<close> bound before it: the list \<^verbatim>\<open>col_samples\<close>.\<close>

fun annotate_loop ::
  "(string \<Rightarrow> nat \<Rightarrow> 'c list) \<Rightarrow> (string \<Rightarrow> npfloat \<Rightarrow> 'c) \<Rightarrow> 'c list option \<Rightarrow>
   ('a::linorder column \<times> 'c annotation) list \<Rightarrow> py_error + ('c list list \<times> 'c list option)" where
  "annotate_loop color_palette get_cmap palette [] = Inr ([], palette)"
| "annotate_loop color_palette get_cmap palette (item # items) =
     (case annotate_item color_palette get_cmap palette (fst item) (snd item) of
        Inl e \<Rightarrow> Inl e
      | Inr (c, palette') \<Rightarrow>
          (case annotate_loop color_palette get_cmap palette' items of
             Inl e \<Rightarrow> Inl e
           | Inr (cs, palette'') \<Rightarrow> Inr (c # cs, palette'')))"

section \<open>Facts about dictionaries\<close>

lemma map_of_dict_set: "map_of (dict_set k v d) = (map_of d)(k \<mapsto> v)"
  by (induction d) (auto simp: fun_eq_iff)

lemma map_of_dict_del: "map_of (dict_del k d) = (map_of d)(k := None)"
  unfolding dict_del_def by (induction d) (auto simp: fun_eq_iff)

lemma map_of_sanitize_step:
  "map_of (sanitize_step (key, alias) d) =
     (case map_of d alias of
        None \<Rightarrow> map_of d
      | Some v \<Rightarrow> (map_of d)(alias := None, key \<mapsto> v))"
  by (simp add: sanitize_step_def dict_get_def map_of_dict_set map_of_dict_del split: option.splits)

lemma map_of_default_step:
  "map_of (default_step (key, val) d) =
     (case map_of d key of None \<Rightarrow> (map_of d)(key \<mapsto> val) | Some v \<Rightarrow> map_of d)"
  by (simp add: default_step_def dict_has_def dict_get_def map_of_dict_set split: option.splits)

lemma map_of_fold_default_step:
  "map_of (fold default_step ds d) = map_of ds ++ map_of d"
proof (induction ds arbitrary: d)
  case Nil
  show ?case by simp
next
  case (Cons kv ds)
  obtain key val where kv: "kv = (key, val)" by (cases kv)
  show ?case
    unfolding kv fold_simps Cons.IH map_of_default_step
    by (auto simp: fun_eq_iff map_add_def split: option.splits)
qed

lemma map_of_fold_sanitize_step:
  assumes "distinct (map fst al)" "distinct (map snd al)" "fst ` set al \<inter> snd ` set al = {}"
  shows "map_of (fold sanitize_step al d) k =
     (if k \<in> snd ` set al then None
      else case map_of al k of
             None \<Rightarrow> map_of d k
           | Some a \<Rightarrow> (case map_of d a of None \<Rightarrow> map_of d k | Some v \<Rightarrow> Some v))"
  using assms
proof (induction al arbitrary: d)
  case Nil
  show ?case by simp
next
  case (Cons ka al)
  obtain key short where ka: "ka = (key, short)" by (cases ka)
  have d1: "distinct (map fst al)" "distinct (map snd al)" "fst ` set al \<inter> snd ` set al = {}"
    using Cons.prems by auto
  have k1: "key \<notin> fst ` set al" "short \<notin> snd ` set al" "key \<notin> snd ` set al"
    "short \<notin> fst ` set al" "key \<noteq> short"
    using Cons.prems unfolding ka by auto
  have m1: "map_of al key = None" using k1(1) by (simp add: map_of_eq_None_iff)
  have m2: "\<And>k a. map_of al k = Some a \<Longrightarrow> a \<noteq> short \<and> a \<noteq> key \<and> k \<noteq> short"
    using k1 by (metis image_eqI map_of_SomeD fst_conv snd_conv)
  show ?case
    unfolding ka fold_simps Cons.IH[OF d1] map_of_sanitize_step
    using k1 m1 m2 by (auto split: option.splits)
qed

lemma aliases_wellformed:
  "distinct (map fst aliases)" "distinct (map snd aliases)" "fst ` set aliases \<inter> snd ` set aliases = {}"
  by (simp_all add: aliases_def)

lemma dict_get_sanitize:
  "dict_get (sanitize_plot_properties d) k =
     (if k \<in> snd ` set aliases then None
      else case map_of aliases k of
             None \<Rightarrow> dict_get d k
           | Some a \<Rightarrow> (case dict_get d a of None \<Rightarrow> dict_get d k | Some v \<Rightarrow> Some v))"
  unfolding dict_get_def sanitize_plot_properties_def
  by (rule map_of_fold_sanitize_step[OF aliases_wellformed])

lemma dict_get_update_properties:
  "dict_get (fst (update_properties kwargs defaults)) k =
     (case dict_get (sanitize_plot_properties kwargs) k of
        None \<Rightarrow> dict_get (sanitize_plot_properties defaults) k
      | Some v \<Rightarrow> Some v)"
  unfolding dict_get_def
  by (simp add: update_properties_def Let_def map_of_fold_default_step map_add_def)

lemma dict_get_dict_set: "dict_get (dict_set k v d) k' = (if k' = k then Some v else dict_get d k')"
  by (simp add: dict_get_def map_of_dict_set)

lemma np_unique_replicate: "np_unique (replicate n x) = (if n = 0 then [] else [x])"
proof -
  have "remdups (replicate n x) = (if n = 0 then [] else [x])"
    by (induction n) auto
  then show ?thesis by (simp add: np_unique_def)
qed

lemma kwargs1_no_c: "dict_get (fst (update_properties kwargs defaults)) ''c'' = None"
  by (simp add: dict_get_update_properties dict_get_sanitize aliases_def)

lemma sanitize_s: "dict_get (sanitize_plot_properties d) ''s'' = dict_get d ''s''"
proof -
  have "''s'' \<notin> snd ` set aliases" "map_of aliases ''s'' = None"
    by (simp_all add: aliases_def)
  then show ?thesis by (simp add: dict_get_sanitize)
qed

lemma kwargs1_has_s:
  fixes kwargs :: "(string, 'c pyval) pydict"
  shows "\<exists>sv. dict_get (fst (update_properties kwargs [(''s'', PNum 90)])) ''s'' = Some sv"
proof -
  have "dict_get (sanitize_plot_properties [(''s'', PNum 90 :: 'c pyval)]) ''s'' = Some (PNum 90)"
    by (simp add: sanitize_s) (simp add: dict_get_def)
  then show ?thesis
    by (simp add: dict_get_update_properties split: option.splits)
qed

lemma filter_all_rows: "filter (\<lambda>i. map f (replicate n x) ! i) [0..<n] = (if f x then [0..<n] else [])"
  by (auto simp: filter_empty_conv intro: filter_True)

lemma mask_select_all: "mask_select a (replicate n True) = (if length a = n then Inr a else Inl IndexError)"
proof -
  have "map fst (filter snd (zip a (replicate (length a) True))) = a"
    by (induction a) simp_all
  then show ?thesis by (auto simp: mask_select_def)
qed

lemma draw_tier_ones:
  assumes "dict_get kwargs ''c'' = None" "dict_get kwargs ''s'' = Some sv"
  shows "draw_tier n kwargs (replicate n (Fin 1)) (Fin 1) ax =
     (case subset_s sv (replicate n True) of
        Inl e \<Rightarrow> Inl e
      | Inr sv' \<Rightarrow> Inr (ax\<lparr>scatter_calls := scatter_calls ax @ [([0..<n], dict_set ''s'' sv' kwargs)]\<rparr>))"
  using assms by (simp add: draw_tier_def Let_def nf_eq_def filter_all_rows)


lemma draw_tiers_ones:
  assumes "dict_get kwargs ''c'' = None" "dict_get kwargs ''s'' = Some sv"
  shows "draw_tiers n kwargs (replicate n (Fin 1)) ax =
     (if n = 0 then Inr ax
      else case subset_s sv (replicate n True) of
             Inl e \<Rightarrow> Inl e
           | Inr sv' \<Rightarrow> Inr (ax\<lparr>scatter_calls := scatter_calls ax @ [([0..<n], dict_set ''s'' sv' kwargs)]\<rparr>))"
  by (simp add: draw_tiers_def np_unique_replicate draw_tier_ones[OF assms] split: sum.splits)

lemma scatter_reduced_None:
  "scatter_reduced n metadata data pseudocount to_rgba None color_log cmap default_color ax
     high_on_top kwargs =
   draw_tiers n (dict_set ''color'' (PColor default_color)
                   (fst (update_properties kwargs [(''s'', PNum 90)])))
     (replicate n (Fin 1)) ax"
  by (simp add: scatter_reduced_def Let_def)

lemma np_unique_props:
  "distinct (np_unique xs)" "set (np_unique xs) = set xs" "length (np_unique xs) = card (set xs)"
  "sorted (np_unique xs)"
  by (simp_all add: np_unique_def length_remdups_card_conv)

lemma list_index_Some:
  "x \<in> set u \<Longrightarrow> \<exists>i. list_index u x = Some i \<and> i < length u \<and> u ! i = x"
  by (induction u) auto

lemma list_index_nth:
  "distinct u \<Longrightarrow> i < length u \<Longrightarrow> list_index u (u ! i) = Some i"
proof (induction u arbitrary: i)
  case Nil
  then show ?case by simp
next
  case (Cons y ys)
  then show ?case by (cases i) auto
qed

lemma row_indices_total:
  "set xs \<subseteq> set u \<Longrightarrow> row_indices u xs = Inr (map (\<lambda>x. the (list_index u x)) xs)"
proof (induction xs)
  case Nil
  show ?case by simp
next
  case (Cons x xs)
  then obtain i where "list_index u x = Some i"
    using list_index_Some[of x u] by auto
  with Cons show ?case by simp
qed

lemma dict_set_keys:
  "fst ` set (dict_set k v d) = insert k (fst ` set d)"
  by (induction d) auto

lemma dict_set_distinct:
  "distinct (map fst d) \<Longrightarrow> distinct (map fst (dict_set k v d))"
proof (induction d)
  case Nil
  show ?case by simp
next
  case (Cons p ps)
  then show ?case
    using dict_set_keys[of k v ps] by (auto simp: image_iff)
qed

lemma dict_update_distinct:
  "distinct (map fst d) \<Longrightarrow> distinct (map fst (dict_update d e))"
  unfolding dict_update_def
  by (induction e arbitrary: d) (simp_all add: dict_set_distinct)

lemma map_of_dict_update:
  "map_of (dict_update d e) = map_of d ++ map_of (rev e)"
  unfolding dict_update_def
proof (induction e arbitrary: d)
  case Nil
  show ?case by simp
next
  case (Cons p e)
  show ?case
    by (simp add: Cons.IH map_of_dict_set map_of_append fun_eq_iff map_add_def split: option.splits)
qed

lemma map_of_rev_distinct:
  "distinct (map fst e) \<Longrightarrow> map_of (rev e) = map_of e"
proof (induction e)
  case Nil
  show ?case by simp
next
  case (Cons p e)
  then have "fst p \<notin> dom (map_of e)"
    by (simp add: dom_map_of_conv_image_fst)
  then show ?case
    using Cons by (cases p) (auto simp: map_of_append fun_eq_iff map_add_def split: option.splits)
qed

lemma map_of_dict_of_zip:
  "distinct u \<Longrightarrow> map_of (dict_of (zip u cu)) = map_of (zip u cu)"
proof -
  assume d: "distinct u"
  have "distinct (map fst (zip u cu))"
    using d by (simp add: map_fst_zip_take)
  then show ?thesis
    by (simp add: dict_of_def map_of_dict_update map_of_rev_distinct)
qed

lemma map_of_singlet_update:
  "distinct u \<Longrightarrow>
   map_of (dict_update old (dict_of (zip u cu))) = map_of old ++ map_of (zip u cu)"
proof -
  assume d: "distinct u"
  have "distinct (map fst (dict_of (zip u cu)))"
    unfolding dict_of_def by (rule dict_update_distinct) simp
  then show ?thesis
    using d by (simp add: map_of_dict_update map_of_rev_distinct map_of_dict_of_zip)
qed

lemma map_of_zip_take:
  assumes "distinct u" "length u \<le> length cu"
  shows "dom (map_of (zip u cu)) = set u"
    and "i < length u \<Longrightarrow> map_of (zip u cu) (u ! i) = Some (cu ! i)"
proof -
  have z: "zip u cu = zip u (take (length u) cu)"
    using zip_append1[of u "[]" cu] by simp
  have l: "length u = length (take (length u) cu)"
    using assms(2) by simp
  show "dom (map_of (zip u cu)) = set u"
    unfolding z using l by (rule dom_map_of_zip)
  assume "i < length u"
  then show "map_of (zip u cu) (u ! i) = Some (cu ! i)"
    unfolding z using map_of_zip_nth[OF l assms(1), of i] assms(2) by simp
qed

lemma length_c_unique_of:
  "length (c_unique_of cmap default_color u) =
     (case cmap of Listed l \<Rightarrow> length l | _ \<Rightarrow> length u)"
  by (simp add: c_unique_of_def linspace01_def split: cmap_arg.splits)


lemma categorical_result:
  "scatter_reduced_categorical values cmap default_color ax =
     (if card (set values) \<le> length (c_unique_of cmap default_color (np_unique values))
      then Inr (map (\<lambda>x. c_unique_of cmap default_color (np_unique values)
                            ! the (list_index (np_unique values) x)) values,
                ax\<lparr>singlet_cmap :=
                     Some (dict_update (case singlet_cmap ax of None \<Rightarrow> [] | Some m \<Rightarrow> m)
                             (dict_of (zip (np_unique values)
                                (c_unique_of cmap default_color (np_unique values)))))\<rparr>)
      else Inl IndexError)"
proof -
  let ?u = "np_unique values"
  let ?cu = "c_unique_of cmap default_color ?u"
  let ?idx = "map (\<lambda>x. the (list_index ?u x)) values"
  have ri: "row_indices ?u values = Inr ?idx"
    by (rule row_indices_total) (simp add: np_unique_props)
  have lu: "length ?u = card (set values)"
    by (rule np_unique_props)
  have "list_all (\<lambda>i. i < length ?cu) ?idx \<longleftrightarrow> length ?u \<le> length ?cu"
  proof
    assume a: "list_all (\<lambda>i. i < length ?cu) ?idx"
    show "length ?u \<le> length ?cu"
    proof (rule ccontr)
      assume "\<not> length ?u \<le> length ?cu"
      then have lt: "length ?cu < length ?u" by simp
      then have "?u ! length ?cu \<in> set values"
        using np_unique_props(2) nth_mem by blast
      moreover have "list_index ?u (?u ! length ?cu) = Some (length ?cu)"
        using lt by (simp add: list_index_nth np_unique_props)
      ultimately show False
        using a by (auto simp: list_all_iff)
    qed
  next
    assume b: "length ?u \<le> length ?cu"
    show "list_all (\<lambda>i. i < length ?cu) ?idx"
      unfolding list_all_iff
    proof
      fix i assume "i \<in> set ?idx"
      then obtain x where x: "x \<in> set values" "i = the (list_index ?u x)" by auto
      then have "x \<in> set ?u" by (simp add: np_unique_props)
      from list_index_Some[OF this] x(2) have "i < length ?u" by auto
      then show "i < length ?cu" using b by simp
    qed
  qed
  then show ?thesis
    unfolding scatter_reduced_categorical_def Let_def ri
    by (simp add: fancy_index_def lu)
qed

lemma no_nan_present: "list_ex isnan (filter (\<lambda>v. \<not> isnan v) xs) = False"
  by (simp add: list_ex_iff)

lemma amin_no_nan:
  "\<not> list_ex isnan xs \<Longrightarrow> amin xs = (if xs = [] then Inl ValueError else Inr (Min (set xs)))"
  by (cases xs) (simp_all add: amin_def Min.set_eq_fold del: set_simps)

lemma amax_no_nan:
  "\<not> list_ex isnan xs \<Longrightarrow> amax xs = (if xs = [] then Inl ValueError else Inr (Max (set xs)))"
  by (cases xs) (simp_all add: amax_def Max.set_eq_fold del: set_simps)

lemma continuous_result:
  fixes vals :: "npfloat list"
  defines "present \<equiv> filter (\<lambda>v. \<not> isnan v) vals"
  defines "m \<equiv> Min (set present)" and "M \<equiv> Max (set present)"
  shows "scatter_reduced_continuous vals color_log phenotype pseudocount (Colormap f)
           default_color to_rgba high_on_top =
     (if present = [] then Inl ValueError
      else
        (let use_log = (case color_log of None \<Rightarrow> \<not> phenotype | Some b \<Rightarrow> b);
             pc = (if phenotype then nf_mul (Fin (1 / 10)) m else pseudocount);
             color_data = (if use_log then map (\<lambda>v. nf_log10 (nf_add v pc)) vals else vals);
             cd_min = (if use_log then nf_log10 (nf_add m pc) else m);
             cd_max = (if use_log then nf_log10 (nf_add M pc) else M);
             cd_norm = map (\<lambda>v. nf_div (nf_sub v cd_min) (nf_sub cd_max cd_min)) color_data
         in Inr \<lparr>cont_c = map (\<lambda>(p, v). if p then f v else to_rgba default_color (3 / 10))
                              (zip (map (\<lambda>v. \<not> isnan v) vals) cd_norm),
                  cont_min = cd_min, cont_max = cd_max, cont_norm = cd_norm,
                  cont_tiers = (if high_on_top then Some (qcut cd_norm tier_quantiles) else None)\<rparr>))"
  unfolding scatter_reduced_continuous_def present_def m_def M_def
  by (simp add: amin_no_nan amax_no_nan no_nan_present Let_def)


lemma Fin_le [simp]: "Fin x \<le> Fin y \<longleftrightarrow> x \<le> y"
  by (simp add: less_eq_npfloat_def)

lemma Fin_less [simp]: "Fin x < Fin y \<longleftrightarrow> x < y"
  by (auto simp: less_npfloat_def)

lemma present_bounds:
  assumes "v \<in> set vals" "\<not> isnan v"
  shows "Min (set (filter (\<lambda>v. \<not> isnan v) vals)) \<le> v"
    and "v \<le> Max (set (filter (\<lambda>v. \<not> isnan v) vals))"
  using assms by (simp_all add: Min_le)

lemma encode_point_shade:
  "pt_c (encode_point min_size vm vM p) = nf_div (nf_sub (pt_level p) vm) (nf_sub vM vm)"
  "pt_s (encode_point min_size vm vM p) = size_fun min_size (pt_fraction p)"
  by (simp_all add: encode_point_def)

lemma nf_log10_Fin: "nf_log10 u = Fin x \<Longrightarrow> \<exists>y. 0 < y \<and> u = Fin y \<and> x = log 10 y"
  by (cases u) (auto split: if_splits)

lemma nf_add_Fin: "nf_add a b = Fin y \<Longrightarrow> \<exists>a' b'. a = Fin a' \<and> b = Fin b' \<and> y = a' + b'"
  by (cases a; cases b) auto

lemma log_shift_inj:
  assumes "nf_log10 (nf_add a pc) = Fin x" "nf_log10 (nf_add b pc) = Fin x"
  shows "a = b"
proof -
  from nf_log10_Fin[OF assms(1)] obtain y where y: "0 < y" "nf_add a pc = Fin y" "x = log 10 y"
    by blast
  from nf_log10_Fin[OF assms(2)] obtain z where z: "0 < z" "nf_add b pc = Fin z" "x = log 10 z"
    by blast
  from nf_add_Fin[OF y(2)] obtain a' p' where a: "a = Fin a'" "pc = Fin p'" "y = a' + p'"
    by blast
  from nf_add_Fin[OF z(2)] obtain b' p'' where b: "b = Fin b'" "pc = Fin p''" "z = b' + p''"
    by blast
  have "log 10 y \<le> log 10 z" "log 10 z \<le> log 10 y" using y z by simp_all
  then have "y \<le> z" "z \<le> y" using y(1) z(1) by simp_all
  then have "y = z" by simp
  then show ?thesis using a b by simp
qed

lemma nf_div_degenerate:
  assumes "\<not> isnan c" "\<And>x. c = Fin x \<Longrightarrow> w = c \<or> isnan w"
  shows "nf_div (nf_sub w c) (nf_sub c c) = NaN"
  using assms by (cases c; cases w) (simp_all add: nf_sub_def)

lemma isnan_log_shift: "isnan v \<Longrightarrow> isnan (nf_log10 (nf_add v pc))"
  by (cases v) simp_all

subsection \<open>Facts about the decimal logarithm\<close>

lemma log10_lower:
  assumes "0 < x" "0 < k" "10 ^ m < x ^ k"
  shows "real m / real k < log 10 x"
proof -
  have "log 10 (10 ^ m) < log 10 (x ^ k)"
    using assms by (simp del: log_pow_cancel)
  then have "real m < real k * log 10 x"
    using assms(1) by (simp add: log_nat_power)
  then show ?thesis
    using assms(2) by (simp add: divide_less_eq mult.commute)
qed

lemma log10_upper:
  assumes "0 < x" "0 < k" "x ^ k < 10 ^ m"
  shows "log 10 x < real m / real k"
proof -
  have "log 10 (x ^ k) < log 10 (10 ^ m)"
    using assms by (simp del: log_pow_cancel)
  then have "real k * log 10 x < real m"
    using assms(1) by (simp add: log_nat_power)
  then show ?thesis
    using assms(2) by (simp add: less_divide_eq mult.commute)
qed

lemma log10_11_bounds:
  "4135 / 100000 < log 10 (11 / 10)" "log 10 (11 / 10) < 4145 / 100000"
proof -
  have a: "(10::real) ^ 6 < (11 / 10) ^ 145"
    by (simp add: power_divide)
  have b: "((11::real) / 10) ^ 169 < 10 ^ 7"
    by (simp add: power_divide)
  have "real 6 / real 145 < log 10 (11 / 10)"
    by (rule log10_lower[OF _ _ a]) simp_all
  then show "4135 / 100000 < log 10 (11 / 10)" by simp
  have "log 10 (11 / 10) < real 7 / real 169"
    by (rule log10_upper[OF _ _ b]) simp_all
  then show "log 10 (11 / 10) < 4145 / 100000" by simp
qed

lemma log10_1001_bounds:
  "200035 / 100000 < log 10 (1001 / 10)" "log 10 (1001 / 10) < 200045 / 100000"
proof -
  let ?x = "1001 / 1000 :: real"
  have split: "log 10 (1001 / 10) = 2 + log 10 ?x"
  proof -
    have "log 10 ((10 :: real) ^ 2) = real 2 * log 10 10"
      by (rule log_nat_power) simp
    then have h: "log 10 (100 :: real) = 2" by simp
    have "log 10 (1001 / 10) = log 10 (100 * ?x)" by simp
    also have "\<dots> = log 10 100 + log 10 ?x"
      by (subst log_mult) simp_all
    finally show ?thesis using h by simp
  qed
  have l1: "101 / 100 \<le> ?x ^ 10" by (simp add: power_divide)
  have l2: "(11 / 10 :: real) \<le> (101 / 100) ^ 10" by (simp add: power_divide)
  have l3: "(10 :: real) ^ 1 < (11 / 10) ^ 25" by (simp add: power_divide)
  have "(11 / 10 :: real) \<le> (?x ^ 10) ^ 10"
    using l2 power_mono[OF l1, of 10] by simp
  then have "(11 / 10 :: real) ^ 25 \<le> ((?x ^ 10) ^ 10) ^ 25"
    by (rule power_mono) simp
  also have "((?x ^ 10) ^ 10) ^ 25 = ?x ^ 2500"
    by (simp only: power_mult[symmetric]) simp
  finally have low: "(10 :: real) ^ 1 < ?x ^ 2500" using l3 by simp
  have "real 1 / real 2500 < log 10 ?x"
    by (rule log10_lower[OF _ _ low]) simp_all
  then show "200035 / 100000 < log 10 (1001 / 10)" unfolding split by simp
  have u1: "?x ^ 10 \<le> 10101 / 10000" by (simp add: power_divide)
  have u2: "(10101 / 10000 :: real) ^ 10 \<le> 11058 / 10000" by (simp add: power_divide)
  have u3: "(11058 / 10000 :: real) ^ 22 * (10101 / 10000) ^ 3 < 10 ^ 1"
    by (simp add: power_divide)
  have "(?x ^ 10) ^ 10 \<le> (10101 / 10000) ^ 10"
    by (rule power_mono[OF u1]) simp
  then have "(?x ^ 10) ^ 10 \<le> 11058 / 10000" using u2 by simp
  then have u4: "((?x ^ 10) ^ 10) ^ 22 \<le> (11058 / 10000) ^ 22"
    by (rule power_mono) simp
  have u5: "(?x ^ 10) ^ 3 \<le> (10101 / 10000) ^ 3"
    by (rule power_mono[OF u1]) simp
  have "?x ^ 2230 = ((?x ^ 10) ^ 10) ^ 22 * (?x ^ 10) ^ 3"
    by (simp only: power_mult[symmetric] power_add[symmetric]) simp
  also have "\<dots> \<le> (11058 / 10000) ^ 22 * (10101 / 10000) ^ 3"
    by (rule mult_mono[OF u4 u5]) simp_all
  finally have up: "?x ^ 2230 < 10 ^ 1" using u3 by simp
  have "log 10 ?x < real 1 / real 2230"
    by (rule log10_upper[OF _ _ up]) simp_all
  then show "log 10 (1001 / 10) < 200045 / 100000" unfolding split by simp
qed

lemma mono_Fin: "mono Fin"
  by (rule monoI) simp

lemma Min_map_Fin: "xs \<noteq> [] \<Longrightarrow> Min (set (map Fin xs)) = Fin (Min (set xs))"
  using mono_Min_commute[OF mono_Fin, of "set xs"] by simp

lemma Max_map_Fin: "xs \<noteq> [] \<Longrightarrow> Max (set (map Fin xs)) = Fin (Max (set xs))"
  using mono_Max_commute[OF mono_Fin, of "set xs"] by simp

lemma filter_present_Fin: "filter (\<lambda>v. \<not> isnan v) (map Fin xs) = map Fin xs"
  by (induction xs) simp_all

subsection \<open>Facts about the tiers and the drawing loop\<close>

lemma length_qcut: "length (qcut x qs) = length x"
  by (simp add: qcut_def)

lemma length_unique_first: "length (unique_first xs) \<le> length xs"
  using length_remdups_leq[of "rev xs"] by (simp add: unique_first_def)

lemma length_qcut_bins: "length (qcut_bins x tier_quantiles) \<le> 5"
  using length_unique_first[of "map (quantile (sort (filter (\<lambda>v. \<not> isnan v) x))) tier_quantiles"]
  by (simp add: qcut_bins_def tier_quantiles_def)

lemma qcut_label_range:
  assumes "length bins \<le> 5"
  shows "qcut_label bins v \<in> {NaN, Fin 0, Fin 1, Fin 2, Fin 3}"
proof -
  define ids where "ids = (if bins \<noteq> [] \<and> nf_eq v (hd bins) then 1 else searchsorted_left bins v)"
  have "searchsorted_left bins v \<le> length bins"
    by (simp add: searchsorted_left_def)
  then have "ids \<le> length bins"
    by (cases bins) (simp_all add: ids_def)
  then have le: "ids \<le> length bins" "length bins \<le> 5" using assms by simp_all
  have lab: "qcut_label bins v =
      (if isnan v \<or> ids = length bins \<or> ids = 0 then NaN else Fin (real (ids - 1)))"
    by (simp add: qcut_label_def ids_def)
  show ?thesis
  proof (cases "isnan v \<or> ids = length bins \<or> ids = 0")
    case True
    then show ?thesis unfolding lab by simp
  next
    case False
    then have "ids = 1 \<or> ids = 2 \<or> ids = 3 \<or> ids = 4" using le by arith
    then show ?thesis unfolding lab using False by auto
  qed
qed

lemma draw_tier_full_colors:
  assumes c: "dict_get kwargs ''c'' = Some (PColors cs)"
      and s: "dict_get kwargs ''s'' = Some (PNum sz)"
      and n: "length tiers = n" "length cs = n"
      and other: "\<exists>i<n. \<not> nf_eq (tiers ! i) t"
  shows "draw_tier n kwargs tiers t ax =
           Inr (ax\<lparr>scatter_calls := scatter_calls ax @
                  [(filter (\<lambda>i. nf_eq (tiers ! i) t) [0..<n],
                    dict_set ''s'' (PNum sz) (dict_set ''c'' (PColors cs) kwargs))]\<rparr>)"
    and "length (filter (\<lambda>i. nf_eq (tiers ! i) t) [0..<n]) < length cs"
proof -
  let ?ind = "map (\<lambda>x. nf_eq x t) tiers"
  have vec: "filter (\<lambda>i. ?ind ! i) [0..<n] = filter (\<lambda>i. nf_eq (tiers ! i) t) [0..<n]"
    using n(1) by (intro filter_cong) simp_all
  from other obtain i where i: "i < n" "\<not> nf_eq (tiers ! i) t" by blast
  have "length (filter (\<lambda>i. nf_eq (tiers ! i) t) [0..<n]) < length [0..<n]"
    by (rule length_filter_less[of i]) (use i in simp_all)
  then show less: "length (filter (\<lambda>i. nf_eq (tiers ! i) t) [0..<n]) < length cs"
    using n(2) by simp
  then show "draw_tier n kwargs tiers t ax =
           Inr (ax\<lparr>scatter_calls := scatter_calls ax @
                  [(filter (\<lambda>i. nf_eq (tiers ! i) t) [0..<n],
                    dict_set ''s'' (PNum sz) (dict_set ''c'' (PColors cs) kwargs))]\<rparr>)"
    unfolding draw_tier_def Let_def vec
    using c s n by (simp add: subset_c_def subset_s_def dict_get_dict_set)
qed

lemma sorted_hd_Min: "sorted l \<Longrightarrow> l \<noteq> [] \<Longrightarrow> hd l = Min (set l)"
  by (cases l) (auto intro!: Min_eqI[symmetric])

lemma sorted_le_last: "sorted l \<Longrightarrow> x \<in> set l \<Longrightarrow> x \<le> last l"
  by (induction l) auto

lemma sorted_last_Max: "sorted l \<Longrightarrow> l \<noteq> [] \<Longrightarrow> last l = Max (set l)"
  by (rule Max_eqI[symmetric]) (simp_all add: sorted_le_last)

lemma last_remdups: "l \<noteq> [] \<Longrightarrow> last (remdups l) = last l"
  by (induction l) auto

lemma hd_unique_first: "ys \<noteq> [] \<Longrightarrow> hd (unique_first ys) = hd ys"
  by (simp add: unique_first_def hd_rev last_remdups last_rev)

lemma set_unique_first: "set (unique_first ys) = set ys"
  by (simp add: unique_first_def)

lemma length_filter_mono:
  "(\<And>x. P x \<Longrightarrow> Q x) \<Longrightarrow> length (filter P xs) \<le> length (filter Q xs)"
  by (induction xs) auto

lemma quantile_0: "srt \<noteq> [] \<Longrightarrow> quantile srt 0 = hd srt"
  by (simp add: quantile_def hd_conv_nth)

lemma quantile_1: "srt \<noteq> [] \<Longrightarrow> quantile srt 1 = last srt"
  by (simp add: quantile_def last_conv_nth)

lemma qcut_bins_ends:
  assumes "filter (\<lambda>v. \<not> isnan v) x \<noteq> []"
  shows "qcut_bins x tier_quantiles \<noteq> []"
    and "hd (qcut_bins x tier_quantiles) = Min (set (filter (\<lambda>v. \<not> isnan v) x))"
    and "Max (set (filter (\<lambda>v. \<not> isnan v) x)) \<in> set (qcut_bins x tier_quantiles)"
proof -
  let ?p = "filter (\<lambda>v. \<not> isnan v) x"
  have ne: "sort ?p \<noteq> []"
  proof
    assume "sort ?p = []"
    then have "length (sort ?p) = 0" by simp
    then show False using assms by simp
  qed
  have h: "hd (sort ?p) = Min (set ?p)" and l: "last (sort ?p) = Max (set ?p)"
    using sorted_hd_Min[OF _ ne] sorted_last_Max[OF _ ne] by (simp_all del: set_filter)
  show "qcut_bins x tier_quantiles \<noteq> []"
    by (simp add: qcut_bins_def tier_quantiles_def unique_first_def)
  show "hd (qcut_bins x tier_quantiles) = Min (set ?p)"
    unfolding qcut_bins_def by (simp add: hd_unique_first tier_quantiles_def quantile_0[OF ne] h)
  show "Max (set ?p) \<in> set (qcut_bins x tier_quantiles)"
    unfolding qcut_bins_def set_unique_first
    by (simp add: tier_quantiles_def quantile_1[OF ne] l del: set_filter)
qed

lemma less_not_nan: "(v :: npfloat) < w \<Longrightarrow> \<not> isnan v"
  by (cases v; cases w) (simp_all add: less_npfloat_def less_eq_npfloat_def)

lemma qcut_label_Fin:
  assumes "qcut_label bins v = Fin a" "bins \<noteq> []"
  shows "\<not> isnan v"
    and "nf_eq v (hd bins) \<Longrightarrow> a = 0"
    and "\<not> nf_eq v (hd bins) \<Longrightarrow> searchsorted_left bins v \<noteq> 0 \<and>
           a = real (searchsorted_left bins v - 1)"
  using assms by (auto simp: qcut_label_def Let_def split: if_splits)

lemma qcut_monotone:
  assumes i: "i < length x" and j: "j < length x" and le: "x ! i \<le> x ! j"
      and a: "qcut x tier_quantiles ! i = Fin a" and b: "qcut x tier_quantiles ! j = Fin b"
  shows "a \<le> b"
proof -
  let ?bins = "qcut_bins x tier_quantiles"
  let ?p = "filter (\<lambda>v. \<not> isnan v) x"
  from a i have la: "qcut_label ?bins (x ! i) = Fin a" by (simp add: qcut_def)
  from b j have lb: "qcut_label ?bins (x ! j) = Fin b" by (simp add: qcut_def)
  have "\<not> isnan (x ! i)" using la by (auto simp: qcut_label_def Let_def split: if_splits)
  then have pi: "x ! i \<in> set ?p" using i by simp
  then have ne: "?p \<noteq> []" by (auto simp del: set_filter)
  note ends = qcut_bins_ends[OF ne]
  note va = qcut_label_Fin[OF la ends(1)] and vb = qcut_label_Fin[OF lb ends(1)]
  have low: "hd ?bins \<le> x ! i" unfolding ends(2) using pi by (simp del: set_filter)
  show ?thesis
  proof (cases "nf_eq (x ! i) (hd ?bins)")
    case True
    then have "a = 0" by (rule va(2))
    moreover have "0 \<le> b" using vb(2,3) by (cases "nf_eq (x ! j) (hd ?bins)") simp_all
    ultimately show ?thesis by simp
  next
    case False
    have nj: "\<not> nf_eq (x ! j) (hd ?bins)"
    proof
      assume "nf_eq (x ! j) (hd ?bins)"
      then have "x ! j = hd ?bins" by (simp add: nf_eq_def)
      then have "x ! i = hd ?bins" using le low by simp
      then show False using False va(1) by (simp add: nf_eq_def)
    qed
    have "searchsorted_left ?bins (x ! i) \<le> searchsorted_left ?bins (x ! j)"
      unfolding searchsorted_left_def using le by (intro length_filter_mono) simp
    then show ?thesis using va(3)[OF False] vb(3)[OF nj] by simp
  qed
qed

lemma qcut_max_label:
  assumes j: "j < length x" and nn: "\<not> isnan (x ! j)"
      and top: "\<And>v. v \<in> set x \<Longrightarrow> \<not> isnan v \<Longrightarrow> v \<le> x ! j"
      and lower: "\<exists>v\<in>set x. v < x ! j"
  shows "\<exists>b. qcut x tier_quantiles ! j = Fin b"
proof -
  let ?bins = "qcut_bins x tier_quantiles"
  let ?p = "filter (\<lambda>v. \<not> isnan v) x"
  have pj: "x ! j \<in> set ?p" using j nn by simp
  then have ne: "?p \<noteq> []" by (auto simp del: set_filter)
  note ends = qcut_bins_ends[OF ne]
  have "Max (set ?p) = x ! j"
    by (rule Max_eqI) (use pj top in auto)
  then have mem: "x ! j \<in> set ?bins" using ends(3) by simp
  from lower obtain v where v: "v \<in> set x" "v < x ! j" by blast
  then have "v \<in> set ?p" using less_not_nan by simp
  then have "Min (set ?p) \<le> v" by (simp del: set_filter)
  then have hd_less: "hd ?bins < x ! j" using v(2) ends(2) by simp
  then have neq: "\<not> nf_eq (x ! j) (hd ?bins)" by (auto simp: nf_eq_def)
  have "hd ?bins \<in> set (filter (\<lambda>b. b < x ! j) ?bins)"
    using hd_less ends(1) by simp
  then have pos: "searchsorted_left ?bins (x ! j) \<noteq> 0"
    unfolding searchsorted_left_def by (auto simp del: set_filter)
  have "length (filter (\<lambda>b. b < x ! j) ?bins) < length ?bins"
    by (rule length_filter_less[OF mem]) simp
  then have lt: "searchsorted_left ?bins (x ! j) \<noteq> length ?bins"
    by (simp add: searchsorted_left_def)
  show ?thesis
    using j nn neq pos lt by (simp add: qcut_def qcut_label_def Let_def)
qed

section \<open>Claims\<close>

text \<open>
  C9. \<^verbatim>\<open>_update_properties\<close> never overwrites a property of the caller with a default.
  With \<open>r\<close> the caller's dictionary after the call: a property given under its short alias
  is found under the long name with the caller's value; a property given under the long
  name only keeps the caller's value; a property without alias keeps the caller's value;
  no short alias is left as a key; and a key that the caller's renamed arguments do not
  have is taken from the renamed defaults, so a default is written for absent keys only.
\<close>

theorem update_properties_keeps_caller:
  "(\<forall>long short v. (long, short) \<in> set aliases \<and> dict_get kwargs short = Some v \<longrightarrow>
       dict_get (fst (update_properties kwargs defaults)) long = Some v) \<and>
   (\<forall>long short v. (long, short) \<in> set aliases \<and> dict_get kwargs short = None \<and>
         dict_get kwargs long = Some v \<longrightarrow>
       dict_get (fst (update_properties kwargs defaults)) long = Some v) \<and>
   (\<forall>k v. k \<notin> fst ` set aliases \<and> k \<notin> snd ` set aliases \<and> dict_get kwargs k = Some v \<longrightarrow>
       dict_get (fst (update_properties kwargs defaults)) k = Some v) \<and>
   (\<forall>k. k \<in> snd ` set aliases \<longrightarrow> dict_get (fst (update_properties kwargs defaults)) k = None) \<and>
   (\<forall>k. \<not> dict_has (sanitize_plot_properties kwargs) k \<longrightarrow>
       dict_get (fst (update_properties kwargs defaults)) k =
       dict_get (sanitize_plot_properties defaults) k)"
proof (intro conjI allI impI)
  fix long short v
  assume a: "(long, short) \<in> set aliases \<and> dict_get kwargs short = Some v"
  then have m: "map_of aliases long = Some short"
    using aliases_wellformed(1) by (simp add: map_of_is_SomeI)
  have "long \<notin> snd ` set aliases"
    using a aliases_wellformed(3) by (metis IntI empty_iff fst_conv image_eqI)
  then show "dict_get (fst (update_properties kwargs defaults)) long = Some v"
    using a m by (simp add: dict_get_update_properties dict_get_sanitize)
next
  fix long short v
  assume a: "(long, short) \<in> set aliases \<and> dict_get kwargs short = None \<and> dict_get kwargs long = Some v"
  then have m: "map_of aliases long = Some short"
    using aliases_wellformed(1) by (simp add: map_of_is_SomeI)
  have "long \<notin> snd ` set aliases"
    using a aliases_wellformed(3) by (metis IntI empty_iff fst_conv image_eqI)
  then show "dict_get (fst (update_properties kwargs defaults)) long = Some v"
    using a m by (simp add: dict_get_update_properties dict_get_sanitize)
next
  fix k v
  assume a: "k \<notin> fst ` set aliases \<and> k \<notin> snd ` set aliases \<and> dict_get kwargs k = Some v"
  then have "map_of aliases k = None"
    by (simp add: map_of_eq_None_iff)
  then show "dict_get (fst (update_properties kwargs defaults)) k = Some v"
    using a by (simp add: dict_get_update_properties dict_get_sanitize)
next
  fix k :: string
  assume "k \<in> snd ` set aliases"
  then show "dict_get (fst (update_properties kwargs defaults)) k = None"
    by (simp add: dict_get_update_properties dict_get_sanitize)
next
  fix k
  assume "\<not> dict_has (sanitize_plot_properties kwargs) k"
  then show "dict_get (fst (update_properties kwargs defaults)) k =
       dict_get (sanitize_plot_properties defaults) k"
    by (simp add: dict_get_update_properties dict_has_def)
qed

theorem update_properties_keeps_caller_witness:
  "(''linewidth'', ''lw'') \<in> set aliases \<and>
   dict_get [(''lw'', 2::nat), (''color'', 7), (''alpha'', 5)] ''lw'' = Some 2 \<and>
   dict_get (fst (update_properties [(''lw'', 2::nat), (''color'', 7), (''alpha'', 5)]
                    [(''linewidth'', 1), (''c'', 8), (''s'', 90)])) ''linewidth'' = Some 2 \<and>
   dict_get (fst (update_properties [(''lw'', 2::nat), (''color'', 7), (''alpha'', 5)]
                    [(''linewidth'', 1), (''c'', 8), (''s'', 90)])) ''color'' = Some 7 \<and>
   dict_get (fst (update_properties [(''lw'', 2::nat), (''color'', 7), (''alpha'', 5)]
                    [(''linewidth'', 1), (''c'', 8), (''s'', 90)])) ''alpha'' = Some 5 \<and>
   dict_get (fst (update_properties [(''lw'', 2::nat), (''color'', 7), (''alpha'', 5)]
                    [(''linewidth'', 1), (''c'', 8), (''s'', 90)])) ''lw'' = None \<and>
   \<not> dict_has (sanitize_plot_properties [(''lw'', 2::nat), (''color'', 7), (''alpha'', 5)]) ''s'' \<and>
   dict_get (fst (update_properties [(''lw'', 2::nat), (''color'', 7), (''alpha'', 5)]
                    [(''linewidth'', 1), (''c'', 8), (''s'', 90)])) ''s'' = Some 90"
proof -
  let ?kw = "[(''lw'', 2::nat), (''color'', 7), (''alpha'', 5)]"
  let ?df = "[(''linewidth'', 1::nat), (''c'', 8), (''s'', 90)]"
  note t = update_properties_keeps_caller[of ?kw ?df]
  have h1: "(''linewidth'', ''lw'') \<in> set aliases \<and> dict_get ?kw ''lw'' = Some 2"
    by (simp add: aliases_def dict_get_def)
  have h2: "(''color'', ''c'') \<in> set aliases \<and> dict_get ?kw ''c'' = None \<and> dict_get ?kw ''color'' = Some 7"
    by (simp add: aliases_def dict_get_def)
  have h3: "''alpha'' \<notin> fst ` set aliases \<and> ''alpha'' \<notin> snd ` set aliases \<and> dict_get ?kw ''alpha'' = Some 5"
    by (simp add: aliases_def dict_get_def)
  have h4: "''lw'' \<in> snd ` set aliases"
    by (simp add: aliases_def)
  have h5: "\<not> dict_has (sanitize_plot_properties ?kw) ''s''"
    by (simp add: dict_has_def dict_get_sanitize) (simp add: aliases_def dict_get_def)
  have s: "dict_get (sanitize_plot_properties ?df) ''s'' = Some 90"
    by (simp add: dict_get_sanitize) (simp add: aliases_def dict_get_def)
  have c1: "dict_get (fst (update_properties ?kw ?df)) ''linewidth'' = Some 2"
    using t[THEN conjunct1, rule_format, OF h1] .
  have c2: "dict_get (fst (update_properties ?kw ?df)) ''color'' = Some 7"
    using t[THEN conjunct2, THEN conjunct1, rule_format, OF h2] .
  have c3: "dict_get (fst (update_properties ?kw ?df)) ''alpha'' = Some 5"
    using t[THEN conjunct2, THEN conjunct2, THEN conjunct1, rule_format, OF h3] .
  have c4: "dict_get (fst (update_properties ?kw ?df)) ''lw'' = None"
    using t[THEN conjunct2, THEN conjunct2, THEN conjunct2, THEN conjunct1, rule_format, OF h4] .
  have c5: "dict_get (fst (update_properties ?kw ?df)) ''s'' = Some 90"
    using t[THEN conjunct2, THEN conjunct2, THEN conjunct2, THEN conjunct2, rule_format, OF h5] s
    by simp
  show ?thesis
    using h1[THEN conjunct1] h1[THEN conjunct2] c1 c2 c3 c4 h5 c5 by (intro conjI)
qed

text \<open>
  C10. With \<^verbatim>\<open>color_by=None\<close> the result of \<^verbatim>\<open>scatter_reduced\<close> does not depend on the
  metadata, the counts, the pseudocount, the colormap, \<^verbatim>\<open>color_log\<close> or \<^verbatim>\<open>high_on_top\<close>.
  When the call returns, \<^verbatim>\<open>_singlet_cmap\<close> of the axes is unchanged, no call is made for an
  empty plot, and otherwise exactly one scatter call draws all rows, with the keyword
  \<^verbatim>\<open>color\<close> equal to \<^verbatim>\<open>default_color\<close> and without any per-row array \<^verbatim>\<open>c\<close>. The call returns
  whenever the caller gives no sizes \<^verbatim>\<open>s\<close> of their own.
\<close>

theorem scatter_reduced_no_color:
  fixes kwargs :: "(string, 'c pyval) pydict" and ax :: "('a::linorder, 'c) axes"
  shows
  "scatter_reduced n metadata data pseudocount to_rgba None color_log cmap default_color ax
       high_on_top kwargs =
     scatter_reduced n metadata' data' pseudocount' to_rgba' None color_log' cmap' default_color ax
       high_on_top' kwargs \<and>
   (\<forall>ax'. scatter_reduced n metadata data pseudocount to_rgba None color_log cmap default_color ax
            high_on_top kwargs = Inr ax' \<longrightarrow>
      singlet_cmap ax' = singlet_cmap ax \<and>
      (n = 0 \<longrightarrow> scatter_calls ax' = scatter_calls ax) \<and>
      (0 < n \<longrightarrow>
        (\<exists>kw. scatter_calls ax' = scatter_calls ax @ [([0..<n], kw)] \<and>
              dict_get kw ''color'' = Some (PColor default_color) \<and>
              dict_get kw ''c'' = None))) \<and>
   (dict_get kwargs ''s'' = None \<longrightarrow>
      (\<exists>ax'. scatter_reduced n metadata data pseudocount to_rgba None color_log cmap default_color ax
              high_on_top kwargs = Inr ax'))"
proof (intro conjI allI impI)
  let ?k1 = "fst (update_properties kwargs [(''s'', PNum 90)])"
  let ?kw = "dict_set ''color'' (PColor default_color) ?k1"
  obtain sv where sv: "dict_get ?k1 ''s'' = Some sv"
    using kwargs1_has_s[of kwargs] by blast
  have c: "dict_get ?kw ''c'' = None"
    by (simp add: dict_get_dict_set kwargs1_no_c)
  have s: "dict_get ?kw ''s'' = Some sv"
    using sv by (simp add: dict_get_dict_set)
  note run = scatter_reduced_None draw_tiers_ones[OF c s]
  show "scatter_reduced n metadata data pseudocount to_rgba None color_log cmap default_color ax
       high_on_top kwargs =
     scatter_reduced n metadata' data' pseudocount' to_rgba' None color_log' cmap' default_color ax
       high_on_top' kwargs"
    by (simp only: scatter_reduced_None)
  {
    fix ax'
    assume r: "scatter_reduced n metadata data pseudocount to_rgba None color_log cmap
                 default_color ax high_on_top kwargs = Inr ax'"
    show "singlet_cmap ax' = singlet_cmap ax"
      using r unfolding run by (auto split: if_splits sum.splits)
    show "scatter_calls ax' = scatter_calls ax" if "n = 0"
      using r that unfolding run by simp
    show "\<exists>kw. scatter_calls ax' = scatter_calls ax @ [([0..<n], kw)] \<and>
              dict_get kw ''color'' = Some (PColor default_color) \<and> dict_get kw ''c'' = None"
      if "0 < n"
    proof -
      from r that obtain sv' where
        ax': "ax' = ax\<lparr>scatter_calls := scatter_calls ax @ [([0..<n], dict_set ''s'' sv' ?kw)]\<rparr>"
        unfolding run by (auto split: sum.splits)
      have "dict_get (dict_set ''s'' sv' ?kw) ''color'' = Some (PColor default_color)"
        by (simp add: dict_get_dict_set)
      moreover have "dict_get (dict_set ''s'' sv' ?kw) ''c'' = None"
        using c by (simp add: dict_get_dict_set)
      ultimately show ?thesis using ax' by simp
    qed
  }
  assume "dict_get kwargs ''s'' = None"
  then have "dict_get ?k1 ''s'' = Some (PNum 90)"
    by (simp add: dict_get_update_properties sanitize_s) (simp add: dict_get_def)
  then have "sv = PNum 90" using sv by simp
  then show "\<exists>ax'. scatter_reduced n metadata data pseudocount to_rgba None color_log cmap
                default_color ax high_on_top kwargs = Inr ax'"
    unfolding run by (simp add: subset_s_def)
qed


theorem scatter_reduced_no_color_witness:
  "dict_get [(''c'', PStr ''red'' :: string pyval)] ''s'' = None \<and>
   (\<exists>ax' kw.
      scatter_reduced 3 [(''g'', Categorical [2::nat, 1, 2])] [(''f'', [Fin 1, NaN, Fin 3])]
        (Fin (1 / 10)) (\<lambda>c a. c) None None (Listed [''r'']) ''darkgrey''
        \<lparr>singlet_cmap = Some [(7, ''blue'')], scatter_calls = []\<rparr> True [(''c'', PStr ''red'')] = Inr ax' \<and>
      singlet_cmap ax' = Some [(7, ''blue'')] \<and>
      scatter_calls ax' = [([0, 1, 2], kw)] \<and>
      dict_get kw ''color'' = Some (PColor ''darkgrey'') \<and>
      dict_get kw ''c'' = None)"
proof -
  let ?kwargs = "[(''c'', PStr ''red'' :: string pyval)]"
  let ?ax = "\<lparr>singlet_cmap = Some [(7::nat, ''blue'')], scatter_calls = []\<rparr>"
  let ?md = "[(''g'', Categorical [2::nat, 1, 2])]"
  let ?dt = "[(''f'', [Fin 1, NaN, Fin 3])]"
  note t = scatter_reduced_no_color[where n = 3 and metadata = ?md and data = ?dt
      and pseudocount = "Fin (1 / 10)" and to_rgba = "\<lambda>c a. c" and color_log = None
      and cmap = "Listed [''r'']" and default_color = "''darkgrey''" and ax = ?ax
      and high_on_top = True and kwargs = ?kwargs]
  have h: "dict_get ?kwargs ''s'' = None"
    by (simp add: dict_get_def)
  from t[THEN conjunct2, THEN conjunct2, rule_format, OF h] obtain ax' where
    r: "scatter_reduced 3 ?md ?dt (Fin (1 / 10)) (\<lambda>c a. c) None None (Listed [''r'']) ''darkgrey''
          ?ax True ?kwargs = Inr ax'"
    by blast
  note p = t[THEN conjunct2, THEN conjunct1, rule_format, OF r]
  have n: "(0::nat) < 3" by simp
  from p[THEN conjunct2, THEN conjunct2, rule_format, OF n] obtain kw where
    kw: "scatter_calls ax' = scatter_calls ?ax @ [([0..<3], kw)]"
      "dict_get kw ''color'' = Some (PColor ''darkgrey'')" "dict_get kw ''c'' = None"
    by blast
  have rows: "[0..<3] = [0, 1, 2::nat]" by (simp add: upt_rec)
  have "singlet_cmap ax' = Some [(7, ''blue'')]"
    using p[THEN conjunct1] by simp
  moreover have "scatter_calls ax' = [([0, 1, 2], kw)]"
    using kw(1) rows by simp
  ultimately show ?thesis using h r kw(2,3) by blast
qed

text \<open>
  C1, as amended. For a column of present labels: whenever the categorical branch of
  \<^verbatim>\<open>scatter_reduced\<close> returns, it has one color for every row, repeats included, and
  \<^verbatim>\<open>_singlet_cmap\<close> of the axes afterwards has as keys the keys it had before together with
  the distinct labels of the column (exactly the distinct labels when the axes had no
  mapping before), every label mapped to the color of the rows that carry it, every other
  key left as it was. Nothing is said about when the branch returns.
\<close>

theorem categorical_colors_and_legend:
  "scatter_reduced_categorical values cmap default_color ax = Inr (c, ax') \<longrightarrow>
      length c = length values \<and>
      (\<exists>legend. singlet_cmap ax' = Some legend \<and>
         dom (map_of legend) =
           (case singlet_cmap ax of None \<Rightarrow> {} | Some m \<Rightarrow> dom (map_of m)) \<union> set values \<and>
         (\<forall>i<length values. dict_get legend (values ! i) = Some (c ! i)) \<and>
         (\<forall>k. k \<notin> set values \<longrightarrow>
            dict_get legend k = (case singlet_cmap ax of None \<Rightarrow> None | Some m \<Rightarrow> dict_get m k)))"
proof (intro conjI impI)
  let ?u = "np_unique values"
  let ?cu = "c_unique_of cmap default_color ?u"
  let ?old = "case singlet_cmap ax of None \<Rightarrow> [] | Some m \<Rightarrow> m"
  let ?legend = "dict_update ?old (dict_of (zip ?u ?cu))"
  have du: "distinct ?u" and su: "set ?u = set values" and lu: "length ?u = card (set values)"
    by (rule np_unique_props)+
  have ml: "map_of ?legend = map_of ?old ++ map_of (zip ?u ?cu)"
    by (rule map_of_singlet_update[OF du])
  {
    assume r: "scatter_reduced_categorical values cmap default_color ax = Inr (c, ax')"
    then have le: "length ?u \<le> length ?cu"
      and c: "c = map (\<lambda>x. ?cu ! the (list_index ?u x)) values"
      and ax': "ax' = ax\<lparr>singlet_cmap := Some ?legend\<rparr>"
      unfolding categorical_result lu by (simp_all split: if_splits)
    show "length c = length values" using c by simp
    have dz: "dom (map_of (zip ?u ?cu)) = set values"
      using map_of_zip_take(1)[OF du le] su by simp
    have "dom (map_of ?legend) =
        (case singlet_cmap ax of None \<Rightarrow> {} | Some m \<Rightarrow> dom (map_of m)) \<union> set values"
      unfolding ml dom_map_add dz by (auto split: option.splits)
    moreover have "\<forall>i<length values. dict_get ?legend (values ! i) = Some (c ! i)"
    proof (intro allI impI)
      fix i assume i: "i < length values"
      then have "values ! i \<in> set ?u" using su by simp
      from list_index_Some[OF this] obtain j where
        j: "list_index ?u (values ! i) = Some j" "j < length ?u" "?u ! j = values ! i"
        by blast
      have "map_of (zip ?u ?cu) (?u ! j) = Some (?cu ! j)"
        by (rule map_of_zip_take(2)[OF du le j(2)])
      then have "map_of ?legend (values ! i) = Some (?cu ! j)"
        unfolding ml using j(3) by (simp add: map_add_def)
      moreover have "c ! i = ?cu ! j"
        using i j(1) c by simp
      ultimately show "dict_get ?legend (values ! i) = Some (c ! i)"
        by (simp add: dict_get_def)
    qed
    moreover have "\<forall>k. k \<notin> set values \<longrightarrow>
        dict_get ?legend k = (case singlet_cmap ax of None \<Rightarrow> None | Some m \<Rightarrow> dict_get m k)"
    proof (intro allI impI)
      fix k assume "k \<notin> set values"
      then have "map_of (zip ?u ?cu) k = None"
        using dz by (metis domIff)
      then show "dict_get ?legend k =
          (case singlet_cmap ax of None \<Rightarrow> None | Some m \<Rightarrow> dict_get m k)"
        unfolding dict_get_def ml by (simp add: map_add_def split: option.splits)
    qed
    ultimately show "\<exists>legend. singlet_cmap ax' = Some legend \<and>
         dom (map_of legend) =
           (case singlet_cmap ax of None \<Rightarrow> {} | Some m \<Rightarrow> dom (map_of m)) \<union> set values \<and>
         (\<forall>i<length values. dict_get legend (values ! i) = Some (c ! i)) \<and>
         (\<forall>k. k \<notin> set values \<longrightarrow>
            dict_get legend k = (case singlet_cmap ax of None \<Rightarrow> None | Some m \<Rightarrow> dict_get m k))"
      using ax' by simp
  }
qed

theorem categorical_colors_and_legend_witness:
  "scatter_reduced_categorical [''b'', ''a'', ''b''] (Listed [''red'', ''blue'', ''green'']) ''darkgrey''
     \<lparr>singlet_cmap = None, scatter_calls = []\<rparr> =
     Inr ([''blue'', ''red'', ''blue''],
          \<lparr>singlet_cmap = Some [(''a'', ''red''), (''b'', ''blue'')], scatter_calls = []\<rparr>) \<and>
   length [''blue'', ''red'', ''blue''] = length [''b'', ''a'', ''b''] \<and>
   (\<exists>legend. Some [(''a'', ''red''), (''b'', ''blue'')] = Some legend \<and>
      dom (map_of legend) = set [''b'', ''a'', ''b''] \<and>
      (\<forall>i<length [''b'', ''a'', ''b''].
          dict_get legend ([''b'', ''a'', ''b''] ! i) = Some ([''blue'', ''red'', ''blue''] ! i)))"
proof -
  let ?ax = "\<lparr>singlet_cmap = None, scatter_calls = []\<rparr> :: (string, string) axes"
  let ?ax' = "\<lparr>singlet_cmap = Some [(''a'', ''red''), (''b'', ''blue'')], scatter_calls = []\<rparr>
      :: (string, string) axes"
  have r: "scatter_reduced_categorical [''b'', ''a'', ''b''] (Listed [''red'', ''blue'', ''green''])
      ''darkgrey'' ?ax = Inr ([''blue'', ''red'', ''blue''], ?ax')"
    by code_simp
  note t = categorical_colors_and_legend[where ax = ?ax and ax' = ?ax'
      and c = "[''blue'', ''red'', ''blue'']" and default_color = "''darkgrey''"
      and cmap = "Listed [''red'', ''blue'', ''green'']", THEN mp, OF r]
  from t have "length [''blue'', ''red'', ''blue''] = length [''b'', ''a'', ''b'']"
    by (rule conjunct1)
  moreover from t have "\<exists>legend. Some [(''a'', ''red''), (''b'', ''blue'')] = Some legend \<and>
      dom (map_of legend) = set [''b'', ''a'', ''b''] \<and>
      (\<forall>i<length [''b'', ''a'', ''b''].
          dict_get legend ([''b'', ''a'', ''b''] ! i) = Some ([''blue'', ''red'', ''blue''] ! i))"
    by auto
  ultimately show ?thesis using r by blast
qed

text \<open>
  C1 as stated fails on axes that already carry a mapping: the recorded mapping keeps its
  old keys, here the key \<^verbatim>\<open>z\<close>, which is not a label of the column.
\<close>

theorem categorical_legend_counterexample:
  "scatter_reduced_categorical [''a''] (Mapping [(''a'', ''blue'')]) ''darkgrey''
     \<lparr>singlet_cmap = Some [(''z'', ''red'')], scatter_calls = []\<rparr> =
     Inr ([''blue''],
          \<lparr>singlet_cmap = Some [(''z'', ''red''), (''a'', ''blue'')], scatter_calls = []\<rparr>) \<and>
   dict_get [(''z'', ''red''), (''a'', ''blue'')] ''z'' = Some ''red'' \<and>
   ''z'' \<notin> set [''a'']"
  by code_simp

text \<open>
  C4. A palette given as a list with fewer colors than there are labels: the categorical
  branch of \<^verbatim>\<open>scatter_reduced\<close> stops with the \<^verbatim>\<open>IndexError\<close> of the array lookup; in
  \<^verbatim>\<open>clustermap\<close> the check that raises \<^verbatim>\<open>ValueError\<close> reads \<^verbatim>\<open>palette\<close> before \<^verbatim>\<open>palette = val\<close>,
  so the first annotation stops with \<^verbatim>\<open>UnboundLocalError\<close> (also for a palette that is long
  enough), and after an annotation by name the check looks at the earlier palette and the
  lookup stops with \<^verbatim>\<open>IndexError\<close>.
\<close>

theorem palette_too_small_errors:
  "scatter_reduced_categorical [''a'', ''b'', ''c''] (Listed [''red'', ''blue'']) ''darkgrey''
     \<lparr>singlet_cmap = None, scatter_calls = []\<rparr> = Inl IndexError \<and>
   annotate_loop (\<lambda>name n. replicate n ''black'') (\<lambda>name v. ''black'') None
     [(Categorical [''a'', ''b'', ''c''], Colors [''red'', ''blue''])] = Inl UnboundLocalError \<and>
   annotate_loop (\<lambda>name n. replicate n ''black'') (\<lambda>name v. ''black'') None
     [(Categorical [''a'', ''b'', ''c''], Colors [''red'', ''blue'', ''green''])] = Inl UnboundLocalError \<and>
   annotate_loop (\<lambda>name n. replicate n ''black'') (\<lambda>name v. ''black'') None
     [(Categorical [''x'', ''y'', ''z'', ''x''], Name ''Set1''),
      (Categorical [''a'', ''b'', ''c''], Colors [''red'', ''blue''])] = Inl IndexError"
  by code_simp

text \<open>
  C2, as amended. For a numeric column with at least one non-missing entry (and a callable
  colormap \<open>f\<close>) the numeric branch of \<^verbatim>\<open>scatter_reduced\<close> returns one color for every row:
  a missing row has the default color at alpha 0.3, a non-missing row has the color that
  the colormap gives to its normalized value. The bounds are the bounds of the column with
  its missing rows removed; without the logarithm they are the least and the greatest
  non-missing value. For the column 1, 2, missing, 4 without logarithm the bounds are 1
  and 4.
\<close>

theorem continuous_missing_rows:
  "((\<exists>v\<in>set vals. \<not> isnan v) \<longrightarrow>
     (\<exists>r. scatter_reduced_continuous vals color_log phenotype pseudocount (Colormap f)
             default_color to_rgba high_on_top = Inr r \<and>
        length (cont_c r) = length vals \<and>
        (\<forall>i<length vals. isnan (vals ! i) \<longrightarrow> cont_c r ! i = to_rgba default_color (3 / 10)) \<and>
        (\<forall>i<length vals. \<not> isnan (vals ! i) \<longrightarrow> cont_c r ! i = f (cont_norm r ! i)) \<and>
        (\<exists>r'. scatter_reduced_continuous (filter (\<lambda>v. \<not> isnan v) vals) color_log phenotype
                 pseudocount (Colormap f) default_color to_rgba high_on_top = Inr r' \<and>
              cont_min r' = cont_min r \<and> cont_max r' = cont_max r) \<and>
        ((case color_log of None \<Rightarrow> phenotype | Some b \<Rightarrow> \<not> b) \<longrightarrow>
           cont_min r = Min (set (filter (\<lambda>v. \<not> isnan v) vals)) \<and>
           cont_max r = Max (set (filter (\<lambda>v. \<not> isnan v) vals))))) \<and>
   scatter_reduced_continuous [Fin 1, Fin 2, NaN, Fin 4] None True pseudocount (Colormap f)
       default_color to_rgba False =
     Inr \<lparr>cont_c = [f (Fin 0), f (Fin (1 / 3)), to_rgba default_color (3 / 10), f (Fin 1)],
          cont_min = Fin 1, cont_max = Fin 4,
          cont_norm = [Fin 0, Fin (1 / 3), NaN, Fin 1], cont_tiers = None\<rparr>"
proof (intro conjI impI)
  assume "\<exists>v\<in>set vals. \<not> isnan v"
  then have ne: "filter (\<lambda>v. \<not> isnan v) vals \<noteq> []"
    by (simp add: filter_empty_conv)
  show "\<exists>r. scatter_reduced_continuous vals color_log phenotype pseudocount (Colormap f)
             default_color to_rgba high_on_top = Inr r \<and>
        length (cont_c r) = length vals \<and>
        (\<forall>i<length vals. isnan (vals ! i) \<longrightarrow> cont_c r ! i = to_rgba default_color (3 / 10)) \<and>
        (\<forall>i<length vals. \<not> isnan (vals ! i) \<longrightarrow> cont_c r ! i = f (cont_norm r ! i)) \<and>
        (\<exists>r'. scatter_reduced_continuous (filter (\<lambda>v. \<not> isnan v) vals) color_log phenotype
                 pseudocount (Colormap f) default_color to_rgba high_on_top = Inr r' \<and>
              cont_min r' = cont_min r \<and> cont_max r' = cont_max r) \<and>
        ((case color_log of None \<Rightarrow> phenotype | Some b \<Rightarrow> \<not> b) \<longrightarrow>
           cont_min r = Min (set (filter (\<lambda>v. \<not> isnan v) vals)) \<and>
           cont_max r = Max (set (filter (\<lambda>v. \<not> isnan v) vals)))"
    unfolding continuous_result using ne
    by (auto simp: Let_def split: option.splits)
next
  show "scatter_reduced_continuous [Fin 1, Fin 2, NaN, Fin 4] None True pseudocount (Colormap f)
       default_color to_rgba False =
     Inr \<lparr>cont_c = [f (Fin 0), f (Fin (1 / 3)), to_rgba default_color (3 / 10), f (Fin 1)],
          cont_min = Fin 1, cont_max = Fin 4,
          cont_norm = [Fin 0, Fin (1 / 3), NaN, Fin 1], cont_tiers = None\<rparr>"
    by (simp add: continuous_result Let_def nf_sub_def)
qed

theorem continuous_missing_rows_witness:
  "Fin 1 \<in> set [Fin 1, Fin 2, NaN, Fin 4] \<and> \<not> isnan (Fin 1) \<and>
   (\<exists>r. scatter_reduced_continuous [Fin 1, Fin 2, NaN, Fin 4] None True (Fin (1 / 10))
           (Colormap (\<lambda>v. v) :: (nat, npfloat) cmap_arg) NInf (\<lambda>c a. Fin a) False = Inr r \<and>
        length (cont_c r) = 4 \<and>
        cont_c r ! 2 = Fin (3 / 10) \<and>
        cont_c r ! 1 = cont_norm r ! 1 \<and>
        cont_min r = Fin 1 \<and> cont_max r = Fin 4)"
proof -
  let ?vals = "[Fin 1, Fin 2, NaN, Fin 4]"
  have h: "\<exists>v\<in>set ?vals. \<not> isnan v" by simp
  have l: "(case None :: bool option of None \<Rightarrow> True | Some b \<Rightarrow> \<not> b)" by simp
  have mm: "Min (set (filter (\<lambda>v. \<not> isnan v) ?vals)) = Fin 1"
    "Max (set (filter (\<lambda>v. \<not> isnan v) ?vals)) = Fin 4"
    by simp_all
  from continuous_missing_rows[where color_log = None and phenotype = True
      and pseudocount = "Fin (1 / 10)" and f = "\<lambda>v. v" and default_color = NInf
      and to_rgba = "\<lambda>c a. Fin a" and high_on_top = False, THEN conjunct1, THEN mp, OF h]
  obtain r where r:
    "scatter_reduced_continuous ?vals None True (Fin (1 / 10))
       (Colormap (\<lambda>v. v) :: (nat, npfloat) cmap_arg) NInf (\<lambda>c a. Fin a) False = Inr r"
    "length (cont_c r) = length ?vals"
    "\<forall>i<length ?vals. isnan (?vals ! i) \<longrightarrow> cont_c r ! i = Fin (3 / 10)"
    "\<forall>i<length ?vals. \<not> isnan (?vals ! i) \<longrightarrow> cont_c r ! i = cont_norm r ! i"
    "(case None :: bool option of None \<Rightarrow> True | Some b \<Rightarrow> \<not> b) \<longrightarrow>
       cont_min r = Min (set (filter (\<lambda>v. \<not> isnan v) ?vals)) \<and>
       cont_max r = Max (set (filter (\<lambda>v. \<not> isnan v) ?vals))"
    by blast
  have "cont_c r ! 2 = Fin (3 / 10)" using r(3)[rule_format, of 2] by simp
  moreover have "cont_c r ! 1 = cont_norm r ! 1" using r(4)[rule_format, of 1] by simp
  moreover have "cont_min r = Fin 1 \<and> cont_max r = Fin 4" using r(5) l mm by simp
  moreover have "length (cont_c r) = 4" using r(2) by simp
  ultimately show ?thesis using r(1) by auto
qed

text \<open>
  C2 as stated fails on a column whose entries are all missing: the minimum of the empty
  array of non-missing values raises \<^verbatim>\<open>ValueError\<close>, and no row gets a color.
\<close>

theorem continuous_missing_rows_counterexample:
  "scatter_reduced_continuous [NaN, NaN] None True (Fin (1 / 10))
     (Colormap (\<lambda>v. v) :: (nat, npfloat) cmap_arg) NInf (\<lambda>c a. Fin a) False = Inl ValueError"
  by (simp add: scatter_reduced_continuous_def amin_def)

text \<open>
  C8. The size of a dot is \<^verbatim>\<open>min_size + (fraction * 11) ** 2\<close> for every fraction, inside
  \<open>[0, 1]\<close> or not: for \<^verbatim>\<open>min_size = 2\<close> the fraction 0.5 gives 32.25, the fraction 1.5 gives
  274.25 and the fraction -1 gives 123. The loop of \<^verbatim>\<open>dot_plot\<close> writes this size into the
  column \<^verbatim>\<open>s\<close> of every row it visits.
\<close>

theorem size_fun_formula:
  "size_fun min_size fraction = min_size + (fraction * 11) ^ 2 \<and>
   size_fun 2 0.5 = 32.25 \<and>
   size_fun 2 1.5 = 274.25 \<and>
   size_fun 2 (- 1) = 123 \<and>
   pt_s (encode_point min_size vm vM p) = min_size + (pt_fraction p * 11) ^ 2 \<and>
   dot_plot_encode 2 Across Across [''g'', ''h''] [''h'', ''g''] [''k'']
     [\<lparr>pt_count = ''k'', pt_group = ''g'', pt_fraction = 1 / 2, pt_level = Fin 1, pt_s = 0, pt_c = Fin 0\<rparr>,
      \<lparr>pt_count = ''k'', pt_group = ''h'', pt_fraction = 3 / 2, pt_level = Fin 3, pt_s = 0, pt_c = Fin 0\<rparr>] =
     Inr [\<lparr>pt_count = ''k'', pt_group = ''g'', pt_fraction = 1 / 2, pt_level = Fin 1,
            pt_s = 129 / 4, pt_c = Fin 0\<rparr>,
          \<lparr>pt_count = ''k'', pt_group = ''h'', pt_fraction = 3 / 2, pt_level = Fin 3,
            pt_s = 1097 / 4, pt_c = Fin 1\<rparr>]"
proof (intro conjI)
  show "size_fun min_size fraction = min_size + (fraction * 11) ^ 2"
    by (simp add: size_fun_def)
  show "size_fun 2 0.5 = 32.25" by (simp add: size_fun_def power2_eq_square)
  show "size_fun 2 1.5 = 274.25" by (simp add: size_fun_def power2_eq_square)
  show "size_fun 2 (- 1) = 123" by (simp add: size_fun_def power2_eq_square)
  show "pt_s (encode_point min_size vm vM p) = min_size + (pt_fraction p * 11) ^ 2"
    by (simp add: encode_point_def size_fun_def)
  show "dot_plot_encode 2 Across Across [''g'', ''h''] [''h'', ''g''] [''k'']
     [\<lparr>pt_count = ''k'', pt_group = ''g'', pt_fraction = 1 / 2, pt_level = Fin 1, pt_s = 0, pt_c = Fin 0\<rparr>,
      \<lparr>pt_count = ''k'', pt_group = ''h'', pt_fraction = 3 / 2, pt_level = Fin 3, pt_s = 0, pt_c = Fin 0\<rparr>] =
     Inr [\<lparr>pt_count = ''k'', pt_group = ''g'', pt_fraction = 1 / 2, pt_level = Fin 1,
            pt_s = 129 / 4, pt_c = Fin 0\<rparr>,
          \<lparr>pt_count = ''k'', pt_group = ''h'', pt_fraction = 3 / 2, pt_level = Fin 3,
            pt_s = 1097 / 4, pt_c = Fin 1\<rparr>]"
    by code_simp
qed

text \<open>
  C6, as amended. The normalized value of a non-missing value \<open>x\<close> for a domain from \<open>a\<close> to
  \<open>b\<close>, \<open>a \<noteq> b\<close>, is \<open>(x - a) / (b - a)\<close>, and the code does not clamp it. In
  \<^verbatim>\<open>scatter_reduced\<close> (without logarithm) the domain is the least and the greatest
  non-missing value of the column, so the normalized value lies in \<open>[0, 1]\<close> by itself. In
  \<^verbatim>\<open>dot_plot\<close> the domain may be given by the caller, and a level outside it has a shade
  outside \<open>[0, 1]\<close>. For the domain from 0 to 1 the shade is the level itself.
\<close>

theorem normalization_unclamped:
  "(scatter_reduced_continuous vals color_log phenotype pseudocount (Colormap f) default_color
       to_rgba high_on_top = Inr r \<and>
    (case color_log of None \<Rightarrow> phenotype | Some b \<Rightarrow> \<not> b) \<and>
    cont_min r = Fin a \<and> cont_max r = Fin b \<and> a \<noteq> b \<and> i < length vals \<and> vals ! i = Fin x \<longrightarrow>
      cont_norm r ! i = Fin ((x - a) / (b - a)) \<and>
      0 \<le> (x - a) / (b - a) \<and> (x - a) / (b - a) \<le> 1) \<and>
   (pt_level p = Fin l \<and> a \<noteq> b \<longrightarrow>
      pt_c (encode_point min_size (Fin a) (Fin b) p) = Fin ((l - a) / (b - a))) \<and>
   pt_c (encode_point min_size (Fin 0) (Fin 1) p) = pt_level p"
proof (intro conjI impI)
  assume h: "scatter_reduced_continuous vals color_log phenotype pseudocount (Colormap f)
       default_color to_rgba high_on_top = Inr r \<and>
    (case color_log of None \<Rightarrow> phenotype | Some b \<Rightarrow> \<not> b) \<and>
    cont_min r = Fin a \<and> cont_max r = Fin b \<and> a \<noteq> b \<and> i < length vals \<and> vals ! i = Fin x"
  let ?present = "filter (\<lambda>v. \<not> isnan v) vals"
  from h have nolog: "\<not> (case color_log of None \<Rightarrow> \<not> phenotype | Some b \<Rightarrow> b)"
    by (auto split: option.splits)
  from h have r: "cont_min r = Min (set ?present)" "cont_max r = Max (set ?present)"
    "cont_norm r = map (\<lambda>v. nf_div (nf_sub v (cont_min r)) (nf_sub (cont_max r) (cont_min r))) vals"
    unfolding continuous_result using nolog
    by (auto simp: Let_def split: if_splits)
  from h have mem: "Fin x \<in> set vals" by (metis nth_mem)
  have "Fin a \<le> Fin x" "Fin x \<le> Fin b"
    using present_bounds[OF mem] r h by simp_all
  then have ab: "a \<le> x" "x \<le> b" by simp_all
  with h have lt: "a < b" by simp
  show "cont_norm r ! i = Fin ((x - a) / (b - a))"
    using h r(3) by (simp add: nf_sub_def)
  show "0 \<le> (x - a) / (b - a)" using ab lt by simp
  show "(x - a) / (b - a) \<le> 1" using ab lt by simp
next
  assume "pt_level p = Fin l \<and> a \<noteq> b"
  then show "pt_c (encode_point min_size (Fin a) (Fin b) p) = Fin ((l - a) / (b - a))"
    by (simp add: encode_point_def nf_sub_def)
next
  show "pt_c (encode_point min_size (Fin 0) (Fin 1) p) = pt_level p"
    by (cases "pt_level p") (simp_all add: encode_point_def nf_sub_def nf_signed_inf_def)
qed

theorem normalization_unclamped_witness:
  "scatter_reduced_continuous [Fin 1, Fin 2, NaN, Fin 4] None True (Fin (1 / 10))
       (Colormap (\<lambda>v. v) :: (nat, npfloat) cmap_arg) NInf (\<lambda>c a. Fin a) False =
     Inr \<lparr>cont_c = [Fin 0, Fin (1 / 3), Fin (3 / 10), Fin 1],
          cont_min = Fin 1, cont_max = Fin 4,
          cont_norm = [Fin 0, Fin (1 / 3), NaN, Fin 1], cont_tiers = None\<rparr> \<and>
   [Fin 0, Fin (1 / 3), NaN, Fin 1] ! 1 = Fin ((2 - 1) / (4 - 1)) \<and>
   (0::real) \<le> (2 - 1) / (4 - 1) \<and> ((2 - 1) / (4 - 1) :: real) \<le> 1 \<and>
   pt_c (encode_point 2 (Fin 0) (Fin 4)
          \<lparr>pt_count = ''k'', pt_group = ''g'', pt_fraction = 1 / 2, pt_level = Fin 2,
            pt_s = 0, pt_c = Fin 0\<rparr>) = Fin ((2 - 0) / (4 - 0))"
proof -
  let ?r = "\<lparr>cont_c = [Fin 0, Fin (1 / 3), Fin (3 / 10), Fin 1],
          cont_min = Fin 1, cont_max = Fin 4,
          cont_norm = [Fin 0, Fin (1 / 3), NaN, Fin 1], cont_tiers = None\<rparr>"
  let ?p = "\<lparr>pt_count = ''k'', pt_group = ''g'', pt_fraction = 1 / 2, pt_level = Fin 2,
            pt_s = 0, pt_c = Fin 0\<rparr>"
  have run: "scatter_reduced_continuous [Fin 1, Fin 2, NaN, Fin 4] None True (Fin (1 / 10))
       (Colormap (\<lambda>v. v) :: (nat, npfloat) cmap_arg) NInf (\<lambda>c a. Fin a) False = Inr ?r"
    by (simp add: continuous_result Let_def nf_sub_def)
  have h1: "scatter_reduced_continuous [Fin 1, Fin 2, NaN, Fin 4] None True (Fin (1 / 10))
       (Colormap (\<lambda>v. v) :: (nat, npfloat) cmap_arg) NInf (\<lambda>c a. Fin a) False = Inr ?r \<and>
    (case None :: bool option of None \<Rightarrow> True | Some b \<Rightarrow> \<not> b) \<and>
    cont_min ?r = Fin 1 \<and> cont_max ?r = Fin 4 \<and> (1::real) \<noteq> 4 \<and>
    (1::nat) < length [Fin 1, Fin 2, NaN, Fin 4] \<and> [Fin 1, Fin 2, NaN, Fin 4] ! 1 = Fin 2"
    using run by simp
  have h2: "pt_level ?p = Fin 2 \<and> (0::real) \<noteq> 4" by simp
  note t = normalization_unclamped[where vals = "[Fin 1, Fin 2, NaN, Fin 4]" and color_log = None
      and phenotype = True and pseudocount = "Fin (1 / 10)" and f = "\<lambda>v. v" and default_color = NInf
      and to_rgba = "\<lambda>c a. Fin a" and high_on_top = False and r = ?r and a = 1 and b = 4
      and i = 1 and x = 2]
  have c1: "cont_norm ?r ! 1 = Fin ((2 - 1) / (4 - 1)) \<and>
      (0::real) \<le> (2 - 1) / (4 - 1) \<and> ((2 - 1) / (4 - 1) :: real) \<le> 1"
    using t[THEN conjunct1, THEN mp, OF h1] .
  have c2: "pt_c (encode_point 2 (Fin 0) (Fin 4) ?p) = Fin ((2 - 0) / (4 - 0))"
    using normalization_unclamped[where p = ?p and l = 2 and a = 0 and b = 4 and min_size = 2,
        THEN conjunct2, THEN conjunct1, THEN mp, OF h2] .
  show ?thesis using run c1 c2 by simp
qed

text \<open>
  C6 as stated fails in \<^verbatim>\<open>dot_plot\<close> with \<^verbatim>\<open>vmin=0, vmax=1\<close>: the level 2 has the shade 2,
  which is not in \<open>[0, 1]\<close>.
\<close>

theorem normalization_unclamped_counterexample:
  "dot_plot_encode 2 (Given (Fin 0)) (Given (Fin 1)) [''g''] [''g''] [''k'']
     [\<lparr>pt_count = ''k'', pt_group = ''g'', pt_fraction = 1 / 2, pt_level = Fin 2, pt_s = 0, pt_c = Fin 0\<rparr>] =
     Inr [\<lparr>pt_count = ''k'', pt_group = ''g'', pt_fraction = 1 / 2, pt_level = Fin 2,
            pt_s = 129 / 4, pt_c = Fin 2\<rparr>] \<and>
   \<not> Fin 2 \<le> Fin 1"
  by code_simp

text \<open>
  C3, as amended. A degenerate domain raises no error. When the numeric branch of
  \<^verbatim>\<open>scatter_reduced\<close> returns with \<^verbatim>\<open>cd_min == cd_max\<close>, the normalized value of every row
  is NaN (the range divides by zero), every non-missing row has the color that the colormap
  gives to NaN and every missing row the default color at alpha 0.3; and the branch does
  return on a column whose non-missing entries are all the same value. In \<^verbatim>\<open>dot_plot\<close> with
  equal bounds the shade of a level is NaN when the level equals the bound and infinite
  otherwise.
\<close>

theorem degenerate_domain_no_error:
  "(scatter_reduced_continuous vals color_log phenotype pseudocount (Colormap f) default_color
       to_rgba high_on_top = Inr r \<and> nf_eq (cont_min r) (cont_max r) \<longrightarrow>
      (\<forall>i<length vals. cont_norm r ! i = NaN) \<and>
      (\<forall>i<length vals. cont_c r ! i =
          (if isnan (vals ! i) then to_rgba default_color (3 / 10) else f NaN))) \<and>
   ((\<exists>x. \<not> isnan x \<and> x \<in> set vals \<and> (\<forall>v\<in>set vals. v = x \<or> isnan v)) \<longrightarrow>
      (\<exists>r. scatter_reduced_continuous vals color_log phenotype pseudocount (Colormap f)
              default_color to_rgba high_on_top = Inr r \<and> cont_min r = cont_max r)) \<and>
   pt_c (encode_point min_size (Fin a) (Fin a) p) =
     (case pt_level p of
        Fin l \<Rightarrow> if l = a then NaN else if a < l then PInf else NInf
      | v \<Rightarrow> v)"
proof (intro conjI impI)
  let ?present = "filter (\<lambda>v. \<not> isnan v) vals"
  let ?m = "Min (set ?present)" and ?M = "Max (set ?present)"
  let ?log = "case color_log of None \<Rightarrow> \<not> phenotype | Some b \<Rightarrow> b"
  let ?pc = "if phenotype then nf_mul (Fin (1 / 10)) ?m else pseudocount"
  let ?L = "\<lambda>v. if ?log then nf_log10 (nf_add v ?pc) else v"
  {
    assume h: "scatter_reduced_continuous vals color_log phenotype pseudocount (Colormap f)
       default_color to_rgba high_on_top = Inr r \<and> nf_eq (cont_min r) (cont_max r)"
    then have ne: "?present \<noteq> []"
      unfolding continuous_result by (auto split: if_splits)
    from h ne have r: "cont_min r = ?L ?m" "cont_max r = ?L ?M"
      "cont_norm r = map (\<lambda>v. nf_div (nf_sub (?L v) (cont_min r))
                                (nf_sub (cont_max r) (cont_min r))) vals"
      "cont_c r = map (\<lambda>(p, v). if p then f v else to_rgba default_color (3 / 10))
                    (zip (map (\<lambda>v. \<not> isnan v) vals) (cont_norm r))"
      unfolding continuous_result by (auto simp: Let_def)
    from h have eq: "cont_max r = cont_min r" and nn: "\<not> isnan (cont_min r)"
      by (auto simp: nf_eq_def)
    have mM: "?m \<in> set ?present" "?M \<in> set ?present"
      using ne by (simp_all del: set_filter)
    have same: "?L v = cont_min r"
      if v: "v \<in> set vals" "\<not> isnan v" and c: "cont_min r = Fin x" for v x
    proof -
      have b: "?m \<le> v" "v \<le> ?M" using present_bounds[OF v] by simp_all
      have "?m = ?M"
      proof (cases ?log)
        case True
        then have "nf_log10 (nf_add ?m ?pc) = Fin x" "nf_log10 (nf_add ?M ?pc) = Fin x"
          using r(1,2) eq c by simp_all
        then show ?thesis by (rule log_shift_inj)
      next
        case False
        then show ?thesis using r eq by simp
      qed
      then have "v = ?m" using b by simp
      then show ?thesis using r(1) by simp
    qed
    have norm: "cont_norm r ! i = NaN" if i: "i < length vals" for i
    proof -
      have "?L (vals ! i) = cont_min r \<or> isnan (?L (vals ! i))" if c: "cont_min r = Fin x" for x
      proof (cases "isnan (vals ! i)")
        case True
        then show ?thesis by (simp add: isnan_log_shift)
      next
        case False
        then show ?thesis using same[of "vals ! i" x] i c by simp
      qed
      from nf_div_degenerate[OF nn this] show ?thesis
        using i r(3) eq by simp
    qed
    then show "\<forall>i<length vals. cont_norm r ! i = NaN" by simp
    show "\<forall>i<length vals. cont_c r ! i =
          (if isnan (vals ! i) then to_rgba default_color (3 / 10) else f NaN)"
    proof (intro allI impI)
      fix i assume i: "i < length vals"
      have l: "length (cont_norm r) = length vals" using r(3) by simp
      show "cont_c r ! i = (if isnan (vals ! i) then to_rgba default_color (3 / 10) else f NaN)"
        using i l norm[OF i] by (simp add: r(4))
    qed
  }
  {
    assume "\<exists>x. \<not> isnan x \<and> x \<in> set vals \<and> (\<forall>v\<in>set vals. v = x \<or> isnan v)"
    then obtain x where x: "\<not> isnan x" "x \<in> set vals" "\<forall>v\<in>set vals. v = x \<or> isnan v"
      by blast
    have "set ?present = {x}" using x by auto
    then have "?present \<noteq> []" "?m = x" "?M = x"
      by (auto simp del: set_filter)
    then show "\<exists>r. scatter_reduced_continuous vals color_log phenotype pseudocount (Colormap f)
              default_color to_rgba high_on_top = Inr r \<and> cont_min r = cont_max r"
      unfolding continuous_result by (simp add: Let_def)
  }
  show "pt_c (encode_point min_size (Fin a) (Fin a) p) =
     (case pt_level p of
        Fin l \<Rightarrow> if l = a then NaN else if a < l then PInf else NInf
      | v \<Rightarrow> v)"
    by (cases "pt_level p") (simp_all add: encode_point_def nf_sub_def nf_signed_inf_def)
qed


theorem degenerate_domain_no_error_witness:
  "scatter_reduced_continuous [Fin 5, NaN, Fin 5] None True (Fin (1 / 10))
       (Colormap (\<lambda>v. v) :: (nat, npfloat) cmap_arg) NInf (\<lambda>c a. Fin a) False =
     Inr \<lparr>cont_c = [NaN, Fin (3 / 10), NaN], cont_min = Fin 5, cont_max = Fin 5,
          cont_norm = [NaN, NaN, NaN], cont_tiers = None\<rparr> \<and>
   nf_eq (Fin 5) (Fin 5) \<and>
   [NaN, NaN, NaN] ! 0 = NaN \<and>
   [NaN, Fin (3 / 10), NaN] ! 1 = Fin (3 / 10) \<and>
   [NaN, Fin (3 / 10), NaN] ! 2 = NaN \<and>
   (\<exists>r. scatter_reduced_continuous [Fin 5, NaN, Fin 5] None True (Fin (1 / 10))
           (Colormap (\<lambda>v. v) :: (nat, npfloat) cmap_arg) NInf (\<lambda>c a. Fin a) False = Inr r \<and>
        cont_min r = cont_max r)"
proof -
  let ?vals = "[Fin 5, NaN, Fin 5]"
  let ?r = "\<lparr>cont_c = [NaN, Fin (3 / 10), NaN], cont_min = Fin 5, cont_max = Fin 5,
          cont_norm = [NaN, NaN, NaN], cont_tiers = None\<rparr>"
  have run: "scatter_reduced_continuous ?vals None True (Fin (1 / 10))
       (Colormap (\<lambda>v. v) :: (nat, npfloat) cmap_arg) NInf (\<lambda>c a. Fin a) False = Inr ?r"
    by (simp add: continuous_result Let_def nf_sub_def)
  have h1: "scatter_reduced_continuous ?vals None True (Fin (1 / 10))
       (Colormap (\<lambda>v. v) :: (nat, npfloat) cmap_arg) NInf (\<lambda>c a. Fin a) False = Inr ?r \<and>
      nf_eq (cont_min ?r) (cont_max ?r)"
    using run by (simp add: nf_eq_def)
  have h2: "\<exists>x. \<not> isnan x \<and> x \<in> set ?vals \<and> (\<forall>v\<in>set ?vals. v = x \<or> isnan v)"
    by (rule exI[of _ "Fin 5"]) simp
  note t = degenerate_domain_no_error[where vals = ?vals and color_log = None and phenotype = True
      and pseudocount = "Fin (1 / 10)" and f = "\<lambda>v. v" and default_color = NInf
      and to_rgba = "\<lambda>c a. Fin a" and high_on_top = False]
  note c1 = t[where r = ?r, THEN conjunct1, THEN mp, OF h1]
  note c2 = t[THEN conjunct2, THEN conjunct1, THEN mp, OF h2]
  have "cont_norm ?r ! 0 = NaN" using c1[THEN conjunct1, rule_format, of 0] by simp
  moreover have "cont_c ?r ! 1 = Fin (3 / 10)" using c1[THEN conjunct2, rule_format, of 1] by simp
  moreover have "cont_c ?r ! 2 = NaN" using c1[THEN conjunct2, rule_format, of 2] by simp
  ultimately show ?thesis using run c2 by (simp add: nf_eq_def)
qed

text \<open>
  C3 as stated fails on the constant column 5, 5, 5: the branch returns colors, the
  colormap's color for NaN in every row; and \<^verbatim>\<open>dot_plot\<close> returns the shade NaN for a single
  level.
\<close>

theorem degenerate_domain_counterexample:
  "scatter_reduced_continuous [Fin 5, Fin 5, Fin 5] None True (Fin (1 / 10))
       (Colormap (\<lambda>v. v) :: (nat, npfloat) cmap_arg) NInf (\<lambda>c a. Fin a) False =
     Inr \<lparr>cont_c = [NaN, NaN, NaN], cont_min = Fin 5, cont_max = Fin 5,
          cont_norm = [NaN, NaN, NaN], cont_tiers = None\<rparr> \<and>
   dot_plot_encode 2 Across Across [''g''] [''g''] [''k'']
     [\<lparr>pt_count = ''k'', pt_group = ''g'', pt_fraction = 1 / 2, pt_level = Fin 1, pt_s = 0, pt_c = Fin 0\<rparr>] =
     Inr [\<lparr>pt_count = ''k'', pt_group = ''g'', pt_fraction = 1 / 2, pt_level = Fin 1,
            pt_s = 129 / 4, pt_c = NaN\<rparr>]"
proof
  show "scatter_reduced_continuous [Fin 5, Fin 5, Fin 5] None True (Fin (1 / 10))
       (Colormap (\<lambda>v. v) :: (nat, npfloat) cmap_arg) NInf (\<lambda>c a. Fin a) False =
     Inr \<lparr>cont_c = [NaN, NaN, NaN], cont_min = Fin 5, cont_max = Fin 5,
          cont_norm = [NaN, NaN, NaN], cont_tiers = None\<rparr>"
    by (simp add: continuous_result Let_def nf_sub_def)
  show "dot_plot_encode 2 Across Across [''g''] [''g''] [''k'']
     [\<lparr>pt_count = ''k'', pt_group = ''g'', pt_fraction = 1 / 2, pt_level = Fin 1, pt_s = 0, pt_c = Fin 0\<rparr>] =
     Inr [\<lparr>pt_count = ''k'', pt_group = ''g'', pt_fraction = 1 / 2, pt_level = Fin 1,
            pt_s = 129 / 4, pt_c = NaN\<rparr>]"
    by code_simp
qed

text \<open>
  C5. In the numeric branch of \<^verbatim>\<open>scatter_reduced\<close> with log on (requested, or left to the
  default on a feature), the branch returns whenever some entry is not missing, and the
  values and both domain bounds go through \<^verbatim>\<open>log10(v + pc)\<close> before the normalization: the
  domain is the logarithm of the shifted minimum and of the shifted maximum of the
  non-missing entries, and the normalized values are computed from the logarithms. Here
  \<^verbatim>\<open>pc\<close> is the pseudocount of the counts table for a feature and a tenth of the minimum for
  a phenotype. For real entries \<open>xs\<close> of a feature and a pseudocount \<open>p\<close> with every \<open>x + p\<close>
  positive, the domain is \<open>log10 (min xs + p)\<close> to \<open>log10 (max xs + p)\<close>. For the entries
  1, 10, 100 and \<open>p = 0.1\<close> the domain is \<open>log10 1.1\<close> to \<open>log10 100.1\<close>, which lie within
  0.00005 of 0.0414 and of 2.0004.
\<close>

theorem log_domain_transformed:
  "((\<exists>v\<in>set vals. \<not> isnan v) \<and> (case color_log of None \<Rightarrow> \<not> phenotype | Some b \<Rightarrow> b) \<longrightarrow>
      (let present = filter (\<lambda>v. \<not> isnan v) vals;
           pc = (if phenotype then nf_mul (Fin (1 / 10)) (Min (set present)) else pseudocount)
       in \<exists>r. scatter_reduced_continuous vals color_log phenotype pseudocount (Colormap f)
                 default_color to_rgba high_on_top = Inr r \<and>
               cont_min r = nf_log10 (nf_add (Min (set present)) pc) \<and>
               cont_max r = nf_log10 (nf_add (Max (set present)) pc) \<and>
               cont_norm r = map (\<lambda>v. nf_div (nf_sub (nf_log10 (nf_add v pc)) (cont_min r))
                                         (nf_sub (cont_max r) (cont_min r))) vals)) \<and>
   (xs \<noteq> [] \<and> (\<forall>x\<in>set xs. 0 < x + p) \<and> color_log \<noteq> Some False \<longrightarrow>
      (\<exists>r. scatter_reduced_continuous (map Fin xs) color_log False (Fin p) (Colormap f)
              default_color to_rgba high_on_top = Inr r \<and>
            cont_min r = Fin (log 10 (Min (set xs) + p)) \<and>
            cont_max r = Fin (log 10 (Max (set xs) + p)) \<and>
            cont_norm r = map (\<lambda>x. nf_div (Fin (log 10 (x + p) - log 10 (Min (set xs) + p)))
                                      (Fin (log 10 (Max (set xs) + p) - log 10 (Min (set xs) + p))))
                            xs)) \<and>
   (\<exists>r. scatter_reduced_continuous [Fin 1, Fin 10, Fin 100] (Some True) phenotype (Fin (1 / 10))
           (Colormap f) default_color to_rgba high_on_top = Inr r \<and>
         cont_min r = Fin (log 10 (11 / 10)) \<and> cont_max r = Fin (log 10 (1001 / 10))) \<and>
   \<bar>log 10 (11 / 10) - 414 / 10000\<bar> < 5 / 100000 \<and>
   \<bar>log 10 (1001 / 10) - 20004 / 10000\<bar> < 5 / 100000"
proof (intro conjI impI)
  {
    assume h: "(\<exists>v\<in>set vals. \<not> isnan v) \<and>
               (case color_log of None \<Rightarrow> \<not> phenotype | Some b \<Rightarrow> b)"
    then have ne: "filter (\<lambda>v. \<not> isnan v) vals \<noteq> []"
      by (auto simp: filter_empty_conv)
    show "let present = filter (\<lambda>v. \<not> isnan v) vals;
           pc = (if phenotype then nf_mul (Fin (1 / 10)) (Min (set present)) else pseudocount)
       in \<exists>r. scatter_reduced_continuous vals color_log phenotype pseudocount (Colormap f)
                 default_color to_rgba high_on_top = Inr r \<and>
               cont_min r = nf_log10 (nf_add (Min (set present)) pc) \<and>
               cont_max r = nf_log10 (nf_add (Max (set present)) pc) \<and>
               cont_norm r = map (\<lambda>v. nf_div (nf_sub (nf_log10 (nf_add v pc)) (cont_min r))
                                         (nf_sub (cont_max r) (cont_min r))) vals"
      unfolding continuous_result using h ne by (simp add: Let_def)
  }
  {
    assume h: "xs \<noteq> [] \<and> (\<forall>x\<in>set xs. 0 < x + p) \<and> color_log \<noteq> Some False"
    then have ne: "xs \<noteq> []" and pos: "\<And>x. x \<in> set xs \<Longrightarrow> 0 < x + p"
      and lg: "(case color_log of None \<Rightarrow> \<not> False | Some b \<Rightarrow> b) = True"
      by (auto split: option.splits)
    have "Min (set xs) \<in> set xs" "Max (set xs) \<in> set xs"
      using ne by simp_all
    then have mpos: "0 < Min (set xs) + p" "0 < Max (set xs) + p"
      using pos by blast+
    show "\<exists>r. scatter_reduced_continuous (map Fin xs) color_log False (Fin p) (Colormap f)
              default_color to_rgba high_on_top = Inr r \<and>
            cont_min r = Fin (log 10 (Min (set xs) + p)) \<and>
            cont_max r = Fin (log 10 (Max (set xs) + p)) \<and>
            cont_norm r = map (\<lambda>x. nf_div (Fin (log 10 (x + p) - log 10 (Min (set xs) + p)))
                                      (Fin (log 10 (Max (set xs) + p) - log 10 (Min (set xs) + p))))
                            xs"
      unfolding continuous_result filter_present_Fin Min_map_Fin[OF ne] Max_map_Fin[OF ne] lg
      using ne mpos pos
      by (simp add: Let_def nf_sub_def del: nf_div.simps)
  }
  show "\<exists>r. scatter_reduced_continuous [Fin 1, Fin 10, Fin 100] (Some True) phenotype (Fin (1 / 10))
           (Colormap f) default_color to_rgba high_on_top = Inr r \<and>
         cont_min r = Fin (log 10 (11 / 10)) \<and> cont_max r = Fin (log 10 (1001 / 10))"
    by (cases phenotype) (simp_all add: continuous_result Let_def)
  show "\<bar>log 10 (11 / 10) - 414 / 10000\<bar> < 5 / 100000"
    using log10_11_bounds by linarith
  show "\<bar>log 10 (1001 / 10) - 20004 / 10000\<bar> < 5 / 100000"
    using log10_1001_bounds by linarith
qed

theorem log_domain_transformed_witness:
  "(\<exists>v\<in>set [Fin 1, NaN, Fin 10, Fin 100]. \<not> isnan v) \<and>
   (\<exists>r. scatter_reduced_continuous [Fin 1, NaN, Fin 10, Fin 100] None False (Fin (1 / 10))
           (Colormap (\<lambda>v. v) :: (nat, npfloat) cmap_arg) NInf (\<lambda>c a. Fin a) False = Inr r \<and>
         cont_min r = Fin (log 10 (11 / 10)) \<and>
         cont_max r = Fin (log 10 (1001 / 10)) \<and>
         cont_norm r ! 1 = NaN \<and>
         cont_norm r ! 3 = Fin 1) \<and>
   [2, 5 :: real] \<noteq> [] \<and> 0 < (2 :: real) + 3 \<and> 0 < (5 :: real) + 3 \<and>
   (\<exists>r. scatter_reduced_continuous (map Fin [2, 5]) None False (Fin 3)
           (Colormap (\<lambda>v. v) :: (nat, npfloat) cmap_arg) NInf (\<lambda>c a. Fin a) False = Inr r \<and>
         cont_min r = Fin (log 10 5) \<and> cont_max r = Fin (log 10 8))"
proof -
  have h1: "(\<exists>v\<in>set [Fin 1, NaN, Fin 10, Fin 100]. \<not> isnan v) \<and>
            (case None of None \<Rightarrow> \<not> False | Some b \<Rightarrow> b)"
    by simp
  have h2: "[2, 5 :: real] \<noteq> [] \<and> (\<forall>x\<in>set [2, 5 :: real]. 0 < x + 3) \<and> None \<noteq> Some False"
    by simp
  have "log 10 (11 / 10) < log 10 (1001 / 10 :: real)"
    by simp
  then have ne: "log 10 (1001 / 10 :: real) \<noteq> log 10 (11 / 10)"
    by linarith
  note c1 = log_domain_transformed[where vals = "[Fin 1, NaN, Fin 10, Fin 100]"
      and color_log = None and phenotype = False and pseudocount = "Fin (1 / 10)"
      and f = "\<lambda>v. v" and default_color = NInf and to_rgba = "\<lambda>c a. Fin a"
      and high_on_top = False, THEN conjunct1, THEN mp, OF h1]
  note c2 = log_domain_transformed[where xs = "[2, 5]" and p = 3
      and color_log = None and f = "\<lambda>v. v" and default_color = NInf and to_rgba = "\<lambda>c a. Fin a"
      and high_on_top = False, THEN conjunct2, THEN conjunct1, THEN mp, OF h2]
  from c1 obtain r where r:
    "scatter_reduced_continuous [Fin 1, NaN, Fin 10, Fin 100] None False (Fin (1 / 10))
       (Colormap (\<lambda>v. v) :: (nat, npfloat) cmap_arg) NInf (\<lambda>c a. Fin a) False = Inr r"
    "cont_min r = Fin (log 10 (11 / 10))" "cont_max r = Fin (log 10 (1001 / 10))"
    "cont_norm r = [Fin 0, NaN,
       Fin ((log 10 (101 / 10) - log 10 (11 / 10)) / (log 10 (1001 / 10) - log 10 (11 / 10))),
       Fin 1]"
    using ne by (auto simp: Let_def nf_sub_def)
  then have "cont_norm r ! 1 = NaN" "cont_norm r ! 3 = Fin 1"
    by simp_all
  from c2 have "\<exists>r. scatter_reduced_continuous (map Fin [2, 5]) None False (Fin 3)
           (Colormap (\<lambda>v. v) :: (nat, npfloat) cmap_arg) NInf (\<lambda>c a. Fin a) False = Inr r \<and>
         cont_min r = Fin (log 10 5) \<and> cont_max r = Fin (log 10 8)"
    by auto
  with r(1,2,3) \<open>cont_norm r ! 1 = NaN\<close> \<open>cont_norm r ! 3 = Fin 1\<close> show ?thesis
    by (simp del: One_nat_def)
qed

text \<open>
  C7. The tiers are as claimed: one per row, each of them 0, 1, 2, 3 or NaN (the tier of a
  missing row), in the order of the values, the row of the largest value in the highest
  tier when the values are not all equal, and 0, 0, 1, 2, 3 for the normalized values
  0, 0.1, 0.5, 0.9, 1. The drawing loop visits the tiers in ascending order, but it does
  not draw them as claimed: line 557 compares the number of colors with the number of
  rows of the tier rather than of the plot, so a tier that holds only some of the rows
  is drawn by a scatter call that is handed the colors of all rows. On the column
  0, 0.1, 0.5, 0.9, 1 with \<^verbatim>\<open>high_on_top\<close> each of the four calls, for 2, 1, 1 and 1 rows,
  carries all five colors. What matplotlib does with such a call is not part of the
  model: since version 3.0 its \<^verbatim>\<open>scatter\<close> refuses a color array whose length differs from
  the number of points with a \<^verbatim>\<open>ValueError\<close>, so that nothing is drawn.
\<close>

theorem high_on_top_full_colors:
  "length (qcut x tier_quantiles) = length x \<and>
   set (qcut x tier_quantiles) \<subseteq> {NaN, Fin 0, Fin 1, Fin 2, Fin 3} \<and>
   (i < length x \<and> j < length x \<and> x ! i \<le> x ! j \<and>
    qcut x tier_quantiles ! i = Fin a \<and> qcut x tier_quantiles ! j = Fin b \<longrightarrow> a \<le> b) \<and>
   (m < length x \<and> \<not> isnan (x ! m) \<and> (\<forall>v\<in>set x. \<not> isnan v \<longrightarrow> v \<le> x ! m) \<and>
    (\<exists>v\<in>set x. v < x ! m) \<longrightarrow>
      (\<exists>top. qcut x tier_quantiles ! m = Fin top \<and>
         (\<forall>k<length x. \<forall>l. qcut x tier_quantiles ! k = Fin l \<longrightarrow> l \<le> top))) \<and>
   qcut (map Fin [0, 1 / 10, 1 / 2, 9 / 10, 1]) tier_quantiles = [Fin 0, Fin 0, Fin 1, Fin 2, Fin 3] \<and>
   (dict_get kwargs ''c'' = Some (PColors cs) \<and> dict_get kwargs ''s'' = Some (PNum sz) \<and>
    length tiers = n \<and> length cs = n \<and> (\<exists>i<n. \<not> nf_eq (tiers ! i) t) \<longrightarrow>
      draw_tier n kwargs tiers t ax =
        Inr (ax\<lparr>scatter_calls := scatter_calls ax @
               [(filter (\<lambda>i. nf_eq (tiers ! i) t) [0..<n],
                 dict_set ''s'' (PNum sz) (dict_set ''c'' (PColors cs) kwargs))]\<rparr>) \<and>
      length (filter (\<lambda>i. nf_eq (tiers ! i) t) [0..<n]) < length cs) \<and>
   scatter_reduced 5 [(''score'', Numeric (map Fin [0, 1 / 10, 1 / 2, 9 / 10, 1]))] []
       pseudocount to_rgba (Some ''score'') None (Colormap f) default_color
       \<lparr>singlet_cmap = None, scatter_calls = []\<rparr> True [] =
     (let kw = [(''s'', PNum 90),
                (''c'', PColors [f (Fin 0), f (Fin (1 / 10)), f (Fin (1 / 2)), f (Fin (9 / 10)),
                                f (Fin 1)])]
      in Inr \<lparr>singlet_cmap = None,
              scatter_calls = [([0, 1], kw), ([2], kw), ([3], kw), ([4], kw)]\<rparr>)"
proof (intro conjI impI)
  show "length (qcut x tier_quantiles) = length x"
    by (rule length_qcut)
  show "set (qcut x tier_quantiles) \<subseteq> {NaN, Fin 0, Fin 1, Fin 2, Fin 3}"
    unfolding qcut_def using qcut_label_range[OF length_qcut_bins] by auto
  {
    assume "i < length x \<and> j < length x \<and> x ! i \<le> x ! j \<and>
      qcut x tier_quantiles ! i = Fin a \<and> qcut x tier_quantiles ! j = Fin b"
    then show "a \<le> b" using qcut_monotone[of i x j a b] by simp
  }
  {
    assume h: "m < length x \<and> \<not> isnan (x ! m) \<and> (\<forall>v\<in>set x. \<not> isnan v \<longrightarrow> v \<le> x ! m) \<and>
      (\<exists>v\<in>set x. v < x ! m)"
    then have m: "m < length x" and nn: "\<not> isnan (x ! m)"
      and top: "\<And>v. v \<in> set x \<Longrightarrow> \<not> isnan v \<Longrightarrow> v \<le> x ! m"
      and lower: "\<exists>v\<in>set x. v < x ! m"
      by simp_all
    from qcut_max_label[OF m nn top lower] obtain top where
      t: "qcut x tier_quantiles ! m = Fin top" by blast
    have "l \<le> top" if k: "k < length x" and l: "qcut x tier_quantiles ! k = Fin l" for k l
    proof -
      have "qcut_label (qcut_bins x tier_quantiles) (x ! k) = Fin l"
        using k l by (simp add: qcut_def)
      then have "\<not> isnan (x ! k)"
        by (auto simp: qcut_label_def Let_def split: if_splits)
      then have "x ! k \<le> x ! m" using k top by simp
      then show ?thesis using qcut_monotone[OF k m _ l t] by simp
    qed
    then show "\<exists>top. qcut x tier_quantiles ! m = Fin top \<and>
         (\<forall>k<length x. \<forall>l. qcut x tier_quantiles ! k = Fin l \<longrightarrow> l \<le> top)"
      using t by blast
  }
  show tiers: "qcut (map Fin [0, 1 / 10, 1 / 2, 9 / 10, 1]) tier_quantiles =
      [Fin 0, Fin 0, Fin 1, Fin 2, Fin 3]"
    by code_simp
  {
    assume h: "dict_get kwargs ''c'' = Some (PColors cs) \<and> dict_get kwargs ''s'' = Some (PNum sz) \<and>
      length tiers = n \<and> length cs = n \<and> (\<exists>i<n. \<not> nf_eq (tiers ! i) t)"
    then have c: "dict_get kwargs ''c'' = Some (PColors cs)"
      and s: "dict_get kwargs ''s'' = Some (PNum sz)"
      and n: "length tiers = n" "length cs = n"
      and other: "\<exists>i<n. \<not> nf_eq (tiers ! i) t"
      by simp_all
    show "draw_tier n kwargs tiers t ax =
        Inr (ax\<lparr>scatter_calls := scatter_calls ax @
               [(filter (\<lambda>i. nf_eq (tiers ! i) t) [0..<n],
                 dict_set ''s'' (PNum sz) (dict_set ''c'' (PColors cs) kwargs))]\<rparr>)"
      by (rule draw_tier_full_colors(1)[OF c s n other])
    show "length (filter (\<lambda>i. nf_eq (tiers ! i) t) [0..<n]) < length cs"
      by (rule draw_tier_full_colors(2)[OF c s n other])
  }
  let ?vals = "[Fin 0, Fin (1 / 10), Fin (1 / 2), Fin (9 / 10), Fin 1]"
  let ?cs = "[f (Fin 0), f (Fin (1 / 10)), f (Fin (1 / 2)), f (Fin (9 / 10)), f (Fin 1)]"
  have cont: "scatter_reduced_continuous ?vals None True pseudocount (Colormap f) default_color
        to_rgba True =
      Inr \<lparr>cont_c = ?cs, cont_min = Fin 0, cont_max = Fin 1, cont_norm = ?vals,
           cont_tiers = Some [Fin 0, Fin 0, Fin 1, Fin 2, Fin 3]\<rparr>"
    unfolding continuous_result using tiers by (simp add: Let_def nf_sub_def)
  have kw: "dict_set ''c'' (PColors ?cs) (fst (update_properties [] [(''s'', PNum 90)])) =
      [(''s'', PNum 90), (''c'', PColors ?cs)]"
    by (simp add: update_properties_def sanitize_plot_properties_def aliases_def
        sanitize_step_def default_step_def dict_has_def dict_get_def Let_def)
  have idx: "[0..<5] = [0, 1, 2, 3, 4]"
    by code_simp
  have uniq: "sort (np_unique [Fin 0, Fin 0, Fin 1, Fin 2, Fin 3]) = [Fin 0, Fin 1, Fin 2, Fin 3]"
    by code_simp
  have draw: "draw_tiers 5 [(''s'', PNum 90), (''c'', PColors ?cs)]
        [Fin 0, Fin 0, Fin 1, Fin 2, Fin 3] \<lparr>singlet_cmap = None, scatter_calls = []\<rparr> =
      Inr \<lparr>singlet_cmap = None,
           scatter_calls = [([0, 1], [(''s'', PNum 90), (''c'', PColors ?cs)]),
                            ([2], [(''s'', PNum 90), (''c'', PColors ?cs)]),
                            ([3], [(''s'', PNum 90), (''c'', PColors ?cs)]),
                            ([4], [(''s'', PNum 90), (''c'', PColors ?cs)])]\<rparr>"
    unfolding draw_tiers_def uniq
    by (simp add: draw_tier_def Let_def dict_get_def subset_c_def subset_s_def nf_eq_def idx)
  show "scatter_reduced 5 [(''score'', Numeric (map Fin [0, 1 / 10, 1 / 2, 9 / 10, 1]))] []
       pseudocount to_rgba (Some ''score'') None (Colormap f) default_color
       \<lparr>singlet_cmap = None, scatter_calls = []\<rparr> True [] =
     (let kw = [(''s'', PNum 90), (''c'', PColors ?cs)]
      in Inr \<lparr>singlet_cmap = None,
              scatter_calls = [([0, 1], kw), ([2], kw), ([3], kw), ([4], kw)]\<rparr>)"
    unfolding scatter_reduced_def Let_def
    by (simp add: dict_get_def kw cont draw)
qed

theorem high_on_top_full_colors_witness:
  "(1 :: nat) < length (map Fin [0, 1 / 10, 1 / 2, 9 / 10, 1]) \<and>
   (4 :: nat) < length (map Fin [0, 1 / 10, 1 / 2, 9 / 10, 1]) \<and>
   map Fin [0, 1 / 10, 1 / 2, 9 / 10, 1] ! 1 \<le> map Fin [0, 1 / 10, 1 / 2, 9 / 10, 1] ! 4 \<and>
   qcut (map Fin [0, 1 / 10, 1 / 2, 9 / 10, 1]) tier_quantiles ! 1 = Fin 0 \<and>
   qcut (map Fin [0, 1 / 10, 1 / 2, 9 / 10, 1]) tier_quantiles ! 4 = Fin 3 \<and>
   (0 :: real) \<le> 3 \<and>
   \<not> isnan (map Fin [0, 1 / 10, 1 / 2, 9 / 10, 1] ! 4) \<and>
   (\<exists>v\<in>set (map Fin [0, 1 / 10, 1 / 2, 9 / 10, 1]). v < map Fin [0, 1 / 10, 1 / 2, 9 / 10, 1] ! 4) \<and>
   (\<exists>top. qcut (map Fin [0, 1 / 10, 1 / 2, 9 / 10, 1]) tier_quantiles ! 4 = Fin top \<and> 2 \<le> top) \<and>
   dict_get [(''s'', PNum 90), (''c'', PColors [7, 8, 9 :: nat])] ''c'' = Some (PColors [7, 8, 9]) \<and>
   dict_get [(''s'', PNum 90), (''c'', PColors [7, 8, 9 :: nat])] ''s'' = Some (PNum 90) \<and>
   (\<exists>i<3. \<not> nf_eq ([Fin 0, Fin 1, Fin 1] ! i) (Fin 1)) \<and>
   draw_tier 3 [(''s'', PNum 90), (''c'', PColors [7, 8, 9 :: nat])] [Fin 0, Fin 1, Fin 1] (Fin 1)
       \<lparr>singlet_cmap = None :: (nat, nat) pydict option, scatter_calls = []\<rparr> =
     Inr \<lparr>singlet_cmap = None,
          scatter_calls = [([1, 2], [(''s'', PNum 90), (''c'', PColors [7, 8, 9])])]\<rparr> \<and>
   length [1, 2 :: nat] < length [7, 8, 9 :: nat]"
proof -
  let ?x = "map Fin [0, 1 / 10, 1 / 2, 9 / 10, 1]"
  let ?kw = "[(''s'', PNum 90), (''c'', PColors [7, 8, 9 :: nat])]"
  let ?tiers = "[Fin 0, Fin 1, Fin 1]"
  let ?ax = "\<lparr>singlet_cmap = None :: (nat, nat) pydict option, scatter_calls = []\<rparr>"
  have tiers: "qcut ?x tier_quantiles = [Fin 0, Fin 0, Fin 1, Fin 2, Fin 3]"
    by code_simp
  have h1: "1 < length ?x \<and> 4 < length ?x \<and> ?x ! 1 \<le> ?x ! 4 \<and>
      qcut ?x tier_quantiles ! 1 = Fin 0 \<and> qcut ?x tier_quantiles ! 4 = Fin 3"
    unfolding tiers by simp
  have h2: "4 < length ?x \<and> \<not> isnan (?x ! 4) \<and> (\<forall>v\<in>set ?x. \<not> isnan v \<longrightarrow> v \<le> ?x ! 4) \<and>
      (\<exists>v\<in>set ?x. v < ?x ! 4)"
    by simp
  have other: "\<exists>i<3. \<not> nf_eq (?tiers ! i) (Fin 1)"
    by (rule exI[of _ 0]) (simp add: nf_eq_def)
  have h3: "dict_get ?kw ''c'' = Some (PColors [7, 8, 9]) \<and> dict_get ?kw ''s'' = Some (PNum 90) \<and>
      length ?tiers = 3 \<and> length [7, 8, 9 :: nat] = 3 \<and> (\<exists>i<3. \<not> nf_eq (?tiers ! i) (Fin 1))"
    using other by (simp add: dict_get_def)
  have idx: "[0..<3] = [0, 1, 2]"
    by code_simp
  note c1 = high_on_top_full_colors[where x = ?x and i = 1 and j = 4 and a = 0 and b = 3,
      THEN conjunct2, THEN conjunct2, THEN conjunct1, THEN mp, OF h1]
  note c2 = high_on_top_full_colors[where x = ?x and m = 4,
      THEN conjunct2, THEN conjunct2, THEN conjunct2, THEN conjunct1, THEN mp, OF h2]
  note c3 = high_on_top_full_colors[where kwargs = ?kw and cs = "[7, 8, 9]" and sz = 90
      and tiers = ?tiers and n = 3 and t = "Fin 1" and ax = ?ax,
      THEN conjunct2, THEN conjunct2, THEN conjunct2, THEN conjunct2, THEN conjunct2,
      THEN conjunct1, THEN mp, OF h3]
  from c2 obtain top where top: "qcut ?x tier_quantiles ! 4 = Fin top"
    "\<forall>k<length ?x. \<forall>l. qcut ?x tier_quantiles ! k = Fin l \<longrightarrow> l \<le> top"
    by blast
  have "qcut ?x tier_quantiles ! 3 = Fin 2" unfolding tiers by simp
  then have "2 \<le> top" using top(2)[rule_format, of 3 2] by simp
  then have e: "\<exists>top. qcut ?x tier_quantiles ! 4 = Fin top \<and> 2 \<le> top"
    using top(1) by blast
  have d: "draw_tier 3 ?kw ?tiers (Fin 1) ?ax =
     Inr \<lparr>singlet_cmap = None,
          scatter_calls = [([1, 2], [(''s'', PNum 90), (''c'', PColors [7, 8, 9])])]\<rparr>"
    using c3[THEN conjunct1] by (simp add: idx nf_eq_def)
  show ?thesis
    using h1 h2 h3 c1 e d by (intro conjI) simp_all
qed

end
